theory Spec2Isabelle
  imports Complex_Main "HOL-Library.Multiset"
begin

section \<open>JavaScript values used by the forecast assistant\<close>

text \<open>
  The three source files are successive versions of one Express server:
  \<^item> \<^verbatim>\<open>src/server.js\<close>: one order window, \<^verbatim>\<open>aggregateLineItems\<close>,
    \<^verbatim>\<open>buildForecastFromAggregates\<close> (floor rule, clamp at 50, top N);
  \<^item> \<^verbatim>\<open>src/unnamed/part_000\<close>: one order window with a per-month breakdown,
    \<^verbatim>\<open>buildForecast(itemsMap, months)\<close> (positive-quantity filter, no clamp, no top N);
  \<^item> \<^verbatim>\<open>src/unnamed/part_001\<close>: two order windows (recent and seasonal),
    \<^verbatim>\<open>buildForecast(itemsMap, recentMonths, topN)\<close> (minimum 1, no clamp, top N).

  Numbers are modelled as mathematical integers: quantities and identifiers of the order
  source are JSON integers, and every operation of the code on them (addition, division
  followed by \<^verbatim>\<open>Math.round\<close>, comparison, \<^verbatim>\<open>Math.min\<close>) is exact on integers of the
  size of order quantities and identifiers; magnitudes near \<open>2\<^sup>5\<^sup>3\<close> and above, where
  doubles round, are outside the model.
\<close>

subsection \<open>Decimal rendering of numbers\<close>

definition digit_char :: "int \<Rightarrow> char" where
  "digit_char d = char_of (48 + d)"

definition digit_val :: "char \<Rightarrow> int option" where
  "digit_val c = (let n = (of_char c :: int) in if 48 \<le> n \<and> n \<le> 57 then Some (n - 48) else None)"

text \<open>\<^verbatim>\<open>String(n)\<close> for an integer \<open>n \<ge> 0\<close>: its decimal digits, no leading zero.\<close>

function showNat :: "int \<Rightarrow> string" where
  "showNat n = (if n < 10 then [digit_char n] else showNat (n div 10) @ [digit_char (n mod 10)])"
  by pat_completeness auto
termination
  by (relation "measure nat") auto

declare showNat.simps [simp del]

definition showInt :: "int \<Rightarrow> string" where
  "showInt i = (if i < 0 then CHR ''-'' # showNat (- i) else showNat i)"

text \<open>Reading a digit string back, most significant digit first.\<close>

fun readDigits :: "int \<Rightarrow> string \<Rightarrow> int option" where
  "readDigits acc [] = Some acc"
| "readDigits acc (c # cs) =
     (case digit_val c of None \<Rightarrow> None | Some d \<Rightarrow> readDigits (10 * acc + d) cs)"

definition readNat :: "string \<Rightarrow> int option" where
  "readNat s = (if s = [] then None else readDigits 0 s)"

definition readInt :: "string \<Rightarrow> int option" where
  "readInt s =
     (case s of
        [] \<Rightarrow> None
      | c # cs \<Rightarrow>
          if c = CHR ''-'' then map_option uminus (readNat cs) else readNat s)"

subsection \<open>Plain objects used as dictionaries\<close>

text \<open>
  The aggregators keep their running totals in a plain object \<^verbatim>\<open>map = {}\<close> and the
  forecasters walk it with \<^verbatim>\<open>Object.entries\<close>. The order of \<^verbatim>\<open>Object.entries\<close> is the
  own-property order of the language: first the keys that are array indices (canonical
  decimal strings of integers up to \<open>2\<^sup>3\<^sup>2 - 2\<close>) in ascending numeric order, then all
  other string keys in the order of their creation. An object is modelled as the list of
  its entries in that order.
\<close>

type_synonym 'v jsobj = "(string \<times> 'v) list"

definition arrayIndex :: "string \<Rightarrow> int option" where
  "arrayIndex k =
     (case readNat k of
        None \<Rightarrow> None
      | Some n \<Rightarrow> if n < 4294967295 \<and> showNat n = k then Some n else None)"

definition obj_get :: "'v jsobj \<Rightarrow> string \<Rightarrow> 'v option" where
  "obj_get m k = map_of m k"

fun insertIndexKey :: "int \<Rightarrow> string \<Rightarrow> 'v \<Rightarrow> 'v jsobj \<Rightarrow> 'v jsobj" where
  "insertIndexKey n k v [] = [(k, v)]"
| "insertIndexKey n k v ((k', v') # r) =
     (case arrayIndex k' of
        None \<Rightarrow> (k, v) # (k', v') # r
      | Some n' \<Rightarrow> if n' < n then (k', v') # insertIndexKey n k v r else (k, v) # (k', v') # r)"

text \<open>\<^verbatim>\<open>map[k] = v\<close> for a key the object does not have yet.\<close>

definition obj_create :: "string \<Rightarrow> 'v \<Rightarrow> 'v jsobj \<Rightarrow> 'v jsobj" where
  "obj_create k v m =
     (case arrayIndex k of None \<Rightarrow> m @ [(k, v)] | Some n \<Rightarrow> insertIndexKey n k v m)"

text \<open>\<^verbatim>\<open>map[k].field = ...\<close>: the entry of an existing key changes in place.\<close>

fun obj_modify :: "string \<Rightarrow> ('v \<Rightarrow> 'v) \<Rightarrow> 'v jsobj \<Rightarrow> 'v jsobj" where
  "obj_modify k f [] = []"
| "obj_modify k f ((k', v') # r) =
     (if k' = k then (k', f v') # r else (k', v') # obj_modify k f r)"


subsection \<open>Values of the order source\<close>

text \<open>
  A line item of the order source carries \<^verbatim>\<open>variant_id\<close> and \<^verbatim>\<open>product_id\<close>
  (a JSON integer, \<^verbatim>\<open>null\<close>, or absent), \<^verbatim>\<open>name\<close> and \<^verbatim>\<open>title\<close> (a string or
  absent) and \<^verbatim>\<open>quantity\<close> (a JSON integer or absent).
\<close>

datatype jsval = JUndefined | JNull | JNum int

text \<open>Truthiness, as \<^verbatim>\<open>||\<close> and \<^verbatim>\<open>!\<close> read it.\<close>

fun truthy :: "jsval \<Rightarrow> bool" where
  "truthy JUndefined = False"
| "truthy JNull = False"
| "truthy (JNum n) = (n \<noteq> 0)"

definition js_or :: "jsval \<Rightarrow> jsval \<Rightarrow> jsval" where
  "js_or a b = (if truthy a then a else b)"

fun js_String :: "jsval \<Rightarrow> string" where
  "js_String JUndefined = ''undefined''"
| "js_String JNull = ''null''"
| "js_String (JNum n) = showInt n"

record line_item =
  li_variant_id :: jsval
  li_product_id :: jsval
  li_name :: "string option"
  li_title :: "string option"
  li_quantity :: "int option"

text \<open>
  An order: its \<^verbatim>\<open>line_items\<close> (possibly absent) and the calendar month
  \<^verbatim>\<open>new Date(o.created_at).getMonth()\<close> of its creation, 0 to 11, \<open>None\<close> when the
  timestamp is not a date (\<^verbatim>\<open>getMonth()\<close> is then \<^verbatim>\<open>NaN\<close>, equal to no month).
\<close>

record order =
  o_line_items :: "line_item list option"
  o_month :: "nat option"

text \<open>\<^verbatim>\<open>o.line_items || []\<close>\<close>

definition lineItemsOf :: "order \<Rightarrow> line_item list" where
  "lineItemsOf ord = (case o_line_items ord of None \<Rightarrow> [] | Some lis \<Rightarrow> lis)"

text \<open>\<^verbatim>\<open>li.name || li.title || ""\<close>: the empty string is falsy.\<close>

definition titleOf :: "line_item \<Rightarrow> string" where
  "titleOf li =
     (case li_name li of
        Some n \<Rightarrow> if n \<noteq> [] then n
                  else (case li_title li of Some t \<Rightarrow> t | None \<Rightarrow> [])
      | None \<Rightarrow> (case li_title li of Some t \<Rightarrow> t | None \<Rightarrow> []))"

text \<open>\<^verbatim>\<open>li.quantity || 0\<close>\<close>

definition quantityOf :: "line_item \<Rightarrow> int" where
  "quantityOf li = (case li_quantity li of None \<Rightarrow> 0 | Some q \<Rightarrow> q)"

text \<open>
  \<^verbatim>\<open>Math.round(t / m)\<close> for integers \<open>t\<close> and \<open>m \<noteq> 0\<close>: \<^verbatim>\<open>Math.round\<close> is
  \<open>\<lfloor>x + 1/2\<rfloor>\<close>, ties going up, and \<open>div\<close> on \<open>int\<close> is the floor of the quotient.
  The callers pass \<open>m = 6\<close>; \<open>m = 0\<close> (where the code computes with \<^verbatim>\<open>Infinity\<close> and
  \<^verbatim>\<open>NaN\<close>) is outside this model, and the theorems below assume \<open>0 < m\<close>.
\<close>

definition js_round_div :: "int \<Rightarrow> int \<Rightarrow> int" where
  "js_round_div t m = (2 * t + m) div (2 * m)"

section \<open>\<^verbatim>\<open>src/server.js\<close>\<close>

subsection \<open>\<^verbatim>\<open>aggregateLineItems\<close>\<close>

text \<open>The entries \<^verbatim>\<open>{ qty, title }\<close> of the aggregate map.\<close>

record agg =
  a_qty :: int
  a_title :: string

text \<open>
  The body of the inner loop. The keys are \<^verbatim>\<open>String(vid)\<close> of a truthy number, so
  \<^verbatim>\<open>map[id]\<close> never reaches a property of \<^verbatim>\<open>Object.prototype\<close>, and an entry, once
  created, is an object and truthy: \<^verbatim>\<open>!map[id]\<close> holds exactly when the key is new.
  \<^verbatim>\<open>
      const vid = li.variant_id || li.product_id;
      if (!vid) continue;
      const id = String(vid);
      if (!map[id]) map[id] = { qty: 0, title: li.name || li.title || "" };
      map[id].qty += (li.quantity || 0);
  \<close>
\<close>

definition addLineItem :: "line_item \<Rightarrow> agg jsobj \<Rightarrow> agg jsobj" where
  "addLineItem li m =
     (let vid = js_or (li_variant_id li) (li_product_id li) in
      if \<not> truthy vid then m
      else
        let id = js_String vid;
            m' = (if obj_get m id = None
                  then obj_create id \<lparr>a_qty = 0, a_title = titleOf li\<rparr> m else m)
        in obj_modify id (\<lambda>e. e\<lparr>a_qty := a_qty e + quantityOf li\<rparr>) m')"

text \<open>
  \<^verbatim>\<open>
  for (const o of orders) {
    if (!o.line_items) continue;
    for (const li of o.line_items) { ... }
  }
  \<close>
\<close>

definition aggregateLineItems :: "order list \<Rightarrow> agg jsobj" where
  "aggregateLineItems orders =
     fold (\<lambda>ord m. case o_line_items ord of None \<Rightarrow> m | Some lis \<Rightarrow> fold addLineItem lis m)
       orders []"

subsection \<open>\<^verbatim>\<open>buildForecastFromAggregates\<close>\<close>

text \<open>The forecast items \<^verbatim>\<open>{ variant_id, qty, title }\<close>, in this file with \<^verbatim>\<open>totalQty\<close>.\<close>

record item =
  variant_id :: string
  qty :: int
  title :: string

record item_total = item +
  totalQty :: int

text \<open>
  \<^verbatim>\<open>
    const avgPerMonth = v.qty / months;
    let qty = Math.round(avgPerMonth);
    if (v.qty > 0 && qty < 1) qty = 1;
    qty = Math.min(qty, 50); // clamp max
    return { variant_id, qty, title: v.title, totalQty: v.qty };
  \<close>
\<close>

definition forecastEntry :: "int \<Rightarrow> string \<times> agg \<Rightarrow> item_total" where
  "forecastEntry months kv =
     (case kv of (vid, v) \<Rightarrow>
        let qty0 = js_round_div (a_qty v) months;
            qty1 = (if a_qty v > 0 \<and> qty0 < 1 then 1 else qty0);
            qty2 = min qty1 50
        in \<lparr>variant_id = vid, qty = qty2, title = a_title v, totalQty = a_qty v\<rparr>)"

text \<open>
  \<^verbatim>\<open>arr.sort((a, b) => b.totalQty - a.totalQty).slice(0, topN)\<close>: the sort of the
  language is stable, so it is the stable sort on the key \<open>- totalQty\<close>.
\<close>

definition buildForecastFromAggregates :: "agg jsobj \<Rightarrow> int \<Rightarrow> nat \<Rightarrow> item_total list" where
  "buildForecastFromAggregates m months topN =
     take topN (sort_key (\<lambda>i. - totalQty i) (map (forecastEntry months) m))"

subsection \<open>\<^verbatim>\<open>buildCartUrl\<close>\<close>

text \<open>\<^verbatim>\<open>parts.join(",")\<close>\<close>

fun join :: "string \<Rightarrow> string list \<Rightarrow> string" where
  "join sep [] = []"
| "join sep [x] = x"
| "join sep (x # y # r) = x @ sep @ join sep (y # r)"

text \<open>
  \<^verbatim>\<open>
  const parts = items.map(i => `${i.variant_id}:${i.qty}`);
  if (parts.length === 0) return "/cart";
  return `/cart/${parts.join(",")}`;
  \<close>
  The version of \<^verbatim>\<open>part_001\<close> tests \<^verbatim>\<open>!items || !items.length\<close> first and is the
  same function on arrays.
\<close>

definition buildCartUrl :: "'a item_scheme list \<Rightarrow> string" where
  "buildCartUrl items =
     (let parts = map (\<lambda>i. variant_id i @ '':'' @ showInt (qty i)) items
      in if length parts = 0 then ''/cart'' else ''/cart/'' @ join '','' parts)"

subsection \<open>The \<^verbatim>\<open>/forecast\<close> route\<close>

text \<open>
  The route performs one \<^verbatim>\<open>fetch\<close> on the order source; its outcome is an input of
  the model: the promise is rejected (a network failure: an error with a message and no
  \<^verbatim>\<open>status\<close>), or it resolves to a response with a status, a text body and what
  \<^verbatim>\<open>res.json()\<close> makes of the body: an exception with a message and no \<^verbatim>\<open>status\<close>
  when the body is not JSON, else the \<^verbatim>\<open>orders\<close> field of the parsed object (\<open>None\<close>
  when the object has no such field).
\<close>

datatype json_outcome =
    JsonFails string
  | JsonObject "order list option"

datatype fetch_outcome =
    FetchRejected string
  | FetchResponse int string json_outcome

record js_error =
  e_message :: string
  e_status :: "int option"

text \<open>
  \<^verbatim>\<open>
  if (!res.ok) {
    const txt = await res.text();
    const err = new Error(`Shopify API error: ${res.status} ${txt}`);
    err.status = res.status;
    throw err;
  }
  return res.json();
  \<close>
  \<^verbatim>\<open>res.ok\<close> is true for the statuses 200 to 299.
\<close>

definition shopifyFetch :: "fetch_outcome \<Rightarrow> js_error + order list option" where
  "shopifyFetch r =
     (case r of
        FetchRejected msg \<Rightarrow> Inl \<lparr>e_message = msg, e_status = None\<rparr>
      | FetchResponse st txt js \<Rightarrow>
          if \<not> (200 \<le> st \<and> st \<le> 299)
          then Inl \<lparr>e_message = ''Shopify API error: '' @ showInt st @ '' '' @ txt,
                    e_status = Some st\<rparr>
          else (case js of
                  JsonFails msg \<Rightarrow> Inl \<lparr>e_message = msg, e_status = None\<rparr>
                | JsonObject d \<Rightarrow> Inr d))"

text \<open>\<^verbatim>\<open>const data = await shopifyFetch(path); return data.orders || [];\<close>\<close>

definition fetchCustomerOrders :: "fetch_outcome \<Rightarrow> js_error + order list" where
  "fetchCustomerOrders r =
     (case shopifyFetch r of
        Inl err \<Rightarrow> Inl err
      | Inr d \<Rightarrow> Inr (case d of None \<Rightarrow> [] | Some os \<Rightarrow> os))"

record request =
  body_customer_id :: "string option"
  query_customer_id :: "string option"
  body_email :: "string option"
  query_email :: "string option"

definition strTruthy :: "string option \<Rightarrow> bool" where
  "strTruthy x = (case x of None \<Rightarrow> False | Some v \<Rightarrow> v \<noteq> [])"

definition str_or :: "string option \<Rightarrow> string option \<Rightarrow> string option" where
  "str_or a b = (if strTruthy a then a else b)"

datatype reply_body =
    ErrorBody string
  | MessageBody string string
  | ForecastBody string "item_total list"

record reply =
  r_status :: int
  r_body :: reply_body

text \<open>
  The handler of \<^verbatim>\<open>app.post("/forecast", ...)\<close>. Forwarding the forecast to the webhook
  sits in its own \<^verbatim>\<open>try\<close> and changes no reply, so it is left out.
  \<^verbatim>\<open>
    if (!customerId && !email) return res.status(400).json({ error: "Provide customer_id or email" });
    const orders = await fetchCustomerOrders({ customer_id: customerId, email, months: 6 });
    if (!orders || orders.length === 0) return res.json({ cartUrl: "/cart", message: ... });
    const agg = aggregateLineItems(orders);
    const forecastItems = buildForecastFromAggregates(agg, 6, 12); // top 12
    if (!forecastItems.length) return res.json({ cartUrl: "/cart", message: ... });
    const cartUrl = buildCartUrl(forecastItems);
    return res.json({ cartUrl, items: forecastItems });
  } catch (err) {
    const status = err.status || 500;
    return res.status(status).json({ error: err.message || "server_error" });
  }
  \<close>
\<close>

definition forecastRoute :: "request \<Rightarrow> fetch_outcome \<Rightarrow> reply" where
  "forecastRoute req r =
     (let customerId = str_or (body_customer_id req) (query_customer_id req);
          email = str_or (body_email req) (query_email req)
      in if \<not> strTruthy customerId \<and> \<not> strTruthy email
         then \<lparr>r_status = 400, r_body = ErrorBody ''Provide customer_id or email''\<rparr>
         else
           (case fetchCustomerOrders r of
              Inl err \<Rightarrow>
                \<lparr>r_status = (case e_status err of
                               None \<Rightarrow> 500
                             | Some st \<Rightarrow> if st \<noteq> 0 then st else 500),
                 r_body = ErrorBody (if e_message err \<noteq> [] then e_message err
                                     else ''server_error'')\<rparr>
            | Inr orders \<Rightarrow>
                if orders = []
                then \<lparr>r_status = 200,
                      r_body = MessageBody ''/cart'' ''No purchases in the last 6 months''\<rparr>
                else
                  let agg = aggregateLineItems orders;
                      forecastItems = buildForecastFromAggregates agg 6 12
                  in if forecastItems = []
                     then \<lparr>r_status = 200,
                           r_body = MessageBody ''/cart'' ''No forecastable items found''\<rparr>
                     else \<lparr>r_status = 200,
                           r_body = ForecastBody (buildCartUrl forecastItems) forecastItems\<rparr>))"

section \<open>\<^verbatim>\<open>src/unnamed/part_001\<close>: two order windows\<close>

record sagg =
  s_title :: string
  s_totalQty :: int

text \<open>
  The body of both inner loops: no test of \<^verbatim>\<open>vid\<close>, the key is the string of whatever
  \<^verbatim>\<open>||\<close> returns.
  \<^verbatim>\<open>
      const vid = String(li.variant_id || li.product_id);
      if (!map[vid]) map[vid] = { title: li.name || li.title || "", totalQty: 0 };
      map[vid].totalQty += li.quantity || 0;
  \<close>
\<close>

definition addLineItemS :: "line_item \<Rightarrow> sagg jsobj \<Rightarrow> sagg jsobj" where
  "addLineItemS li m =
     (let vid = js_String (js_or (li_variant_id li) (li_product_id li));
          m' = (if obj_get m vid = None
                then obj_create vid \<lparr>s_title = titleOf li, s_totalQty = 0\<rparr> m else m)
      in obj_modify vid (\<lambda>e. e\<lparr>s_totalQty := s_totalQty e + quantityOf li\<rparr>) m')"

text \<open>
  \<open>currentMonth\<close> is \<^verbatim>\<open>new Date().getMonth()\<close>, a parameter here.
  \<^verbatim>\<open>
  for (const o of recentOrders) {
    for (const li of o.line_items || []) { ... }
  }
  for (const o of seasonalOrders) {
    const month = new Date(o.created_at).getMonth();
    if (month !== currentMonth) continue; // skip other months
    for (const li of o.line_items || []) { ... }
  }
  \<close>
\<close>

definition aggregateLineItemsWithSeasonality ::
    "nat \<Rightarrow> order list \<Rightarrow> order list \<Rightarrow> sagg jsobj" where
  "aggregateLineItemsWithSeasonality currentMonth recentOrders seasonalOrders =
     (let m1 = fold (\<lambda>ord m. fold addLineItemS (lineItemsOf ord) m) recentOrders []
      in fold (\<lambda>ord m. if o_month ord \<noteq> Some currentMonth then m
                        else fold addLineItemS (lineItemsOf ord) m) seasonalOrders m1)"

text \<open>
  \<^verbatim>\<open>
    const avgRecentQty = data.totalQty / recentMonths; // approximate recurring
    const totalQty = Math.round(avgRecentQty) > 0 ? Math.round(avgRecentQty) : 1;
    forecast.push({ variant_id, qty: totalQty, title: data.title });
  \<close>
\<close>

definition forecastPush :: "int \<Rightarrow> string \<times> sagg \<Rightarrow> item" where
  "forecastPush recentMonths kv =
     (case kv of (vid, d) \<Rightarrow>
        let r = js_round_div (s_totalQty d) recentMonths;
            totalQty = (if r > 0 then r else 1)
        in \<lparr>variant_id = vid, qty = totalQty, title = s_title d\<rparr>)"

text \<open>\<^verbatim>\<open>forecast.sort((a, b) => b.qty - a.qty).slice(0, topN)\<close>\<close>

definition buildForecast :: "sagg jsobj \<Rightarrow> int \<Rightarrow> nat \<Rightarrow> item list" where
  "buildForecast itemsMap recentMonths topN =
     take topN (sort_key (\<lambda>i. - qty i) (map (forecastPush recentMonths) itemsMap))"

section \<open>\<^verbatim>\<open>src/unnamed/part_000\<close>: one window with a monthly breakdown\<close>

text \<open>
  The entries \<^verbatim>\<open>{ title, totalQty, monthlyQty }\<close>; \<^verbatim>\<open>monthlyQty\<close> is keyed by the
  month of the order.
\<close>

record magg =
  m_title :: string
  m_totalQty :: int
  m_monthlyQty :: "nat option \<rightharpoonup> int"

text \<open>
  \<^verbatim>\<open>
      const vid = String(li.variant_id || li.product_id);
      if (!map[vid]) map[vid] = { title: li.name || li.title || "", totalQty: 0, monthlyQty: {} };
      map[vid].totalQty += li.quantity || 0;
      map[vid].monthlyQty[month] = (map[vid].monthlyQty[month] || 0) + (li.quantity || 0);
  \<close>
\<close>

definition addLineItemM :: "nat option \<Rightarrow> line_item \<Rightarrow> magg jsobj \<Rightarrow> magg jsobj" where
  "addLineItemM month li m =
     (let vid = js_String (js_or (li_variant_id li) (li_product_id li));
          m1 = (if obj_get m vid = None
                then obj_create vid
                       \<lparr>m_title = titleOf li, m_totalQty = 0, m_monthlyQty = Map.empty\<rparr> m
                else m);
          m2 = obj_modify vid (\<lambda>e. e\<lparr>m_totalQty := m_totalQty e + quantityOf li\<rparr>) m1
      in obj_modify vid
           (\<lambda>e. e\<lparr>m_monthlyQty := (m_monthlyQty e)
                  (month \<mapsto> (case m_monthlyQty e month of None \<Rightarrow> 0 | Some q \<Rightarrow> q)
                             + quantityOf li)\<rparr>) m2)"

text \<open>The function \<^verbatim>\<open>aggregateLineItemsWithSeasonality(orders)\<close> of \<^verbatim>\<open>part_000\<close>.\<close>

definition aggregateLineItemsMonthly :: "order list \<Rightarrow> magg jsobj" where
  "aggregateLineItemsMonthly orders =
     fold (\<lambda>ord m. fold (addLineItemM (o_month ord)) (lineItemsOf ord) m) orders []"

text \<open>
  The function \<^verbatim>\<open>buildForecast(itemsMap, months)\<close> of \<^verbatim>\<open>part_000\<close>; the test
  \<^verbatim>\<open>avgMonthlyQty > 0\<close> on the quotient is the sign of the product.
  \<^verbatim>\<open>
    const avgMonthlyQty = data.totalQty / months;
    const regularQty = avgMonthlyQty > 0 ? Math.round(avgMonthlyQty) : 0;
    const seasonalQty = data.monthlyQty[currentMonth] || 0;
    const totalQty = regularQty + seasonalQty;
    if (totalQty > 0) { forecast.push({ variant_id, qty: totalQty, title: data.title }); }
  ...
  return forecast.sort((a, b) => b.qty - a.qty);
  \<close>
\<close>

definition forecastPushMonthly :: "nat \<Rightarrow> int \<Rightarrow> string \<times> magg \<Rightarrow> item list" where
  "forecastPushMonthly currentMonth months kv =
     (case kv of (vid, d) \<Rightarrow>
        let regularQty = (if 0 < m_totalQty d * months
                          then js_round_div (m_totalQty d) months else 0);
            seasonalQty = (case m_monthlyQty d (Some currentMonth) of
                             None \<Rightarrow> 0 | Some q \<Rightarrow> q);
            totalQty = regularQty + seasonalQty
        in if totalQty > 0 then [\<lparr>variant_id = vid, qty = totalQty, title = m_title d\<rparr>]
           else [])"

definition buildForecastMonthly :: "nat \<Rightarrow> magg jsobj \<Rightarrow> int \<Rightarrow> item list" where
  "buildForecastMonthly currentMonth itemsMap months =
     sort_key (\<lambda>i. - qty i) (concat (map (forecastPushMonthly currentMonth months) itemsMap))"

section \<open>Reading a cart path back\<close>

text \<open>
  The repository has no parser of cart paths. The specification describes one, for its
  round-trip property: split the part after \<^verbatim>\<open>/cart/\<close> on \<^verbatim>\<open>,\<close>, then each token on
  \<^verbatim>\<open>:\<close>. The definitions of this section follow those words; \<open>splitOn\<close> is
  \<^verbatim>\<open>String.prototype.split\<close> with a one-character separator.
\<close>

fun splitOn :: "char \<Rightarrow> string \<Rightarrow> string list" where
  "splitOn c [] = [] # []"
| "splitOn c (x # xs) =
     (if x = c then [] # splitOn c xs
      else (case splitOn c xs of [] \<Rightarrow> [x] # [] | t # ts \<Rightarrow> (x # t) # ts))"

definition parseToken :: "string \<Rightarrow> (string \<times> int) option" where
  "parseToken t =
     (case splitOn CHR '':'' t of
        [i, q] \<Rightarrow> map_option (\<lambda>n. (i, n)) (readInt q)
      | _ \<Rightarrow> None)"

definition parseCartPath :: "string \<Rightarrow> (string \<times> int) list option" where
  "parseCartPath p =
     (if p = ''/cart'' then Some []
      else if take 6 p = ''/cart/'' then those (map parseToken (splitOn CHR '','' (drop 6 p)))
      else None)"

section \<open>Notions used to state the claims\<close>

text \<open>
  The items of \<^verbatim>\<open>part_001\<close> carry no total; the accumulated total of an item is the
  \<^verbatim>\<open>totalQty\<close> of the entry of the aggregate map under the item's identifier (every
  item of a forecast has one; 0 stands for a missing entry).
\<close>

definition accumulatedTotal :: "sagg jsobj \<Rightarrow> item \<Rightarrow> int" where
  "accumulatedTotal m i =
     (case obj_get m (variant_id i) of None \<Rightarrow> 0 | Some e \<Rightarrow> s_totalQty e)"

text \<open>
  The key \<^verbatim>\<open>String(li.variant_id || li.product_id)\<close> under which the aggregators file
  a line item.
\<close>

definition keyOf :: "line_item \<Rightarrow> string" where
  "keyOf li = js_String (js_or (li_variant_id li) (li_product_id li))"

text \<open>
  The identifier \<^verbatim>\<open>li.variant_id || li.product_id\<close> of a line item, whether it is
  truthy, and the line items of a list of orders, in the order the loops visit them.
\<close>

definition identified :: "line_item \<Rightarrow> bool" where
  "identified li = truthy (js_or (li_variant_id li) (li_product_id li))"

definition allLineItems :: "order list \<Rightarrow> line_item list" where
  "allLineItems orders = concat (map lineItemsOf orders)"

text \<open>
  The line items that reach the running totals of the two-window aggregator: all those
  of the recent orders, then those of the seasonal orders of the current calendar month.
\<close>

definition contributingLineItems :: "nat \<Rightarrow> order list \<Rightarrow> order list \<Rightarrow> line_item list" where
  "contributingLineItems currentMonth recentOrders seasonalOrders =
     allLineItems recentOrders
     @ allLineItems (filter (\<lambda>ord. o_month ord = Some currentMonth) seasonalOrders)"

text \<open>
  The line items that map to a key in \<^verbatim>\<open>aggregateLineItems\<close> of \<^verbatim>\<open>server.js\<close>, and
  the first non-empty title among a list of line items, as the specification words the
  title of an entry (\<open>None\<close> when every title is empty).
\<close>

definition lineItemsWithKey :: "string \<Rightarrow> line_item list \<Rightarrow> line_item list" where
  "lineItemsWithKey k lis = filter (\<lambda>li. identified li \<and> keyOf li = k) lis"

definition firstNonEmptyTitle :: "line_item list \<Rightarrow> string option" where
  "firstNonEmptyTitle lis =
     (case filter (\<lambda>t. t \<noteq> []) (map titleOf lis) of [] \<Rightarrow> None | t # r \<Rightarrow> Some t)"

text \<open>
  In an entry of \<^verbatim>\<open>part_000\<close> built from quantities that are not negative, no month
  holds more than the total; \<open>entriesWithinTotal\<close> says so of every entry of a map.
\<close>

definition monthsWithinTotal :: "magg \<Rightarrow> bool" where
  "monthsWithinTotal e = (\<forall>mo q. m_monthlyQty e mo = Some q \<longrightarrow> q \<le> m_totalQty e)"

definition entriesWithinTotal :: "magg jsobj \<Rightarrow> bool" where
  "entriesWithinTotal m =
     (\<forall>k e. obj_get m k = Some e \<longrightarrow> 0 \<le> m_totalQty e \<and> monthsWithinTotal e)"

text \<open>
  An identifier that is a safe path token, one that the cart path can carry: it holds
  neither of the two separators. The numeric and alphanumeric identifiers of the order
  source are such tokens.
\<close>

definition safeToken :: "string \<Rightarrow> bool" where
  "safeToken s = (CHR '','' \<notin> set s \<and> CHR '':'' \<notin> set s)"

text \<open>
  The quantity that the forecast of \<^verbatim>\<open>part_000\<close> predicts for an entry, as a number:
  the monthly average of the window rounded to the nearest integer (a half rounds up) when
  the entry has a positive total, and nothing otherwise, plus the quantity bought in the
  current calendar month.
\<close>

definition predictedMonthly :: "nat \<Rightarrow> int \<Rightarrow> magg \<Rightarrow> int" where
  "predictedMonthly currentMonth months d =
     (if 0 < m_totalQty d
      then \<lfloor>real_of_int (m_totalQty d) / real_of_int months + 1 / 2\<rfloor> else 0)
     + (case m_monthlyQty d (Some currentMonth) of None \<Rightarrow> 0 | Some q \<Rightarrow> q)"

section \<open>Concrete inputs\<close>

definition mkItem :: "jsval \<Rightarrow> jsval \<Rightarrow> string option \<Rightarrow> int option \<Rightarrow> line_item" where
  "mkItem v p t q =
     \<lparr>li_variant_id = v, li_product_id = p, li_name = None, li_title = t, li_quantity = q\<rparr>"

definition mkOrder :: "nat \<Rightarrow> line_item list \<Rightarrow> order" where
  "mkOrder mo lis = \<lparr>o_line_items = Some lis, o_month = Some mo\<rparr>"

text \<open>Two items bought once and twice, in an order of January.\<close>

definition ordersOneTwo :: "order list" where
  "ordersOneTwo =
     [mkOrder 0 [mkItem (JNum 1) JNull (Some ''A'') (Some 1),
                 mkItem (JNum 2) JNull (Some ''B'') (Some 2)]]"

text \<open>One item bought twice in one order; only the second line item carries a title.\<close>

definition ordersLateTitle :: "order list" where
  "ordersLateTitle =
     [mkOrder 0 [mkItem (JNum 5) JNull None (Some 1),
                 mkItem (JNum 5) JNull (Some ''Shirt'') (Some 1)]]"

text \<open>
  A custom line item: the order source gives it neither a variant nor a product
  (\<^verbatim>\<open>{ variant_id: null, product_id: null, title: "Gift", quantity: 2 }\<close>).
\<close>

definition ordersNoIdentifier :: "order list" where
  "ordersNoIdentifier = [mkOrder 0 [mkItem JNull JNull (Some ''Gift'') (Some 2)]]"

text \<open>A request that names its customer in the body.\<close>

definition requestById :: request where
  "requestById = \<lparr>body_customer_id = Some ''42'', query_customer_id = None,
                   body_email = None, query_email = None\<rparr>"

text \<open>An order whose only line item has the quantity 0.\<close>

definition ordersZeroQuantity :: "order list" where
  "ordersZeroQuantity = [mkOrder 0 [mkItem (JNum 7) JNull (Some ''Tea'') (Some 0)]]"

text \<open>
  Twenty-one different items, six units of each, in one order of January: more items
  than the largest top-N bound of the repository (12 in \<^verbatim>\<open>server.js\<close>, 20 in
  \<^verbatim>\<open>part_001\<close>).
\<close>

definition ordersTwentyOne :: "order list" where
  "ordersTwentyOne =
     [mkOrder 0 (map (\<lambda>n. mkItem (JNum n) JNull (Some ''Tea'') (Some 6)) [1..21])]"

section \<open>Facts about the model\<close>

subsection \<open>Sorting\<close>

lemma sorted_desc_iff:
  "sorted (map (\<lambda>x. - f x) xs) = sorted_wrt (\<lambda>a b. f b \<le> (f a :: int)) xs"
  by (induction xs) auto

lemma sort_key_neg_desc:
  "sorted_wrt (\<lambda>a b. f b \<le> (f a :: int)) (sort_key (\<lambda>x. - f x) xs)"
  using sorted_sort_key [of "\<lambda>x. - f x" xs] by (simp only: sorted_desc_iff)

subsection \<open>Objects\<close>

lemma obj_get_Nil: "obj_get [] k = None"
  by (simp add: obj_get_def)

lemma map_of_insertIndexKey:
  "map_of m k = None \<Longrightarrow> map_of (insertIndexKey n k v m) = (map_of m)(k \<mapsto> v)"
  by (induction m) (auto simp: fun_eq_iff split: option.splits if_splits)

lemma set_insertIndexKey: "set (insertIndexKey n k v m) = insert (k, v) (set m)"
  by (induction m) (auto split: option.splits if_splits)

lemma distinct_insertIndexKey:
  "k \<notin> fst ` set m \<Longrightarrow> distinct (map fst m) \<Longrightarrow> distinct (map fst (insertIndexKey n k v m))"
  by (induction m) (auto simp: set_insertIndexKey split: option.splits if_splits)

lemma obj_get_create:
  "obj_get m k = None \<Longrightarrow> obj_get (obj_create k v m) = (obj_get m)(k \<mapsto> v)"
  unfolding obj_get_def obj_create_def
  by (auto simp: map_of_insertIndexKey fun_eq_iff map_add_def split: option.splits)

lemma distinct_obj_create:
  "obj_get m k = None \<Longrightarrow> distinct (map fst m) \<Longrightarrow> distinct (map fst (obj_create k v m))"
  unfolding obj_get_def obj_create_def
  by (auto simp: distinct_insertIndexKey map_of_eq_None_iff split: option.splits)

lemma keys_obj_modify: "map fst (obj_modify k f m) = map fst m"
  by (induction m) auto

lemma obj_get_modify:
  "obj_get (obj_modify k f m) =
     (case obj_get m k of None \<Rightarrow> obj_get m | Some v \<Rightarrow> (obj_get m)(k \<mapsto> f v))"
  unfolding obj_get_def
  by (induction m) (auto simp: fun_eq_iff split: option.splits)

subsection \<open>The two-window aggregator\<close>

lemma obj_get_addLineItemS:
  "obj_get (addLineItemS li m) =
     (obj_get m)(keyOf li \<mapsto>
        (case obj_get m (keyOf li) of
           None \<Rightarrow> \<lparr>s_title = titleOf li, s_totalQty = quantityOf li\<rparr>
         | Some e \<Rightarrow> e\<lparr>s_totalQty := s_totalQty e + quantityOf li\<rparr>))"
  by (auto simp: addLineItemS_def keyOf_def Let_def obj_get_modify obj_get_create fun_eq_iff
        split: option.splits)

lemma distinct_addLineItemS:
  "distinct (map fst m) \<Longrightarrow> distinct (map fst (addLineItemS li m))"
  by (auto simp: addLineItemS_def Let_def keys_obj_modify distinct_obj_create)

lemma obj_get_fold_addLineItemS:
  "obj_get (fold addLineItemS lis m) k =
     (case filter (\<lambda>li. keyOf li = k) lis of
        [] \<Rightarrow> obj_get m k
      | li # r \<Rightarrow>
          Some (case obj_get m k of
                  None \<Rightarrow> \<lparr>s_title = titleOf li, s_totalQty = sum_list (map quantityOf (li # r))\<rparr>
                | Some e \<Rightarrow> e\<lparr>s_totalQty := s_totalQty e + sum_list (map quantityOf (li # r))\<rparr>))"
proof (induction lis arbitrary: m)
  case Nil
  then show ?case by simp
next
  case (Cons a lis)
  show ?case
    by (simp add: Cons.IH obj_get_addLineItemS split: list.splits option.splits)
qed

lemma fold_orders_recent:
  "fold (\<lambda>ord m. fold addLineItemS (lineItemsOf ord) m) os m
     = fold addLineItemS (allLineItems os) m"
  by (induction os arbitrary: m) (simp_all add: allLineItems_def)

lemma fold_orders_seasonal:
  "fold (\<lambda>ord m. if o_month ord \<noteq> Some cur then m
                   else fold addLineItemS (lineItemsOf ord) m) os m
     = fold addLineItemS (allLineItems (filter (\<lambda>ord. o_month ord = Some cur) os)) m"
  by (induction os arbitrary: m) (simp_all add: allLineItems_def)

lemma aggregateLineItemsWithSeasonality_fold:
  "aggregateLineItemsWithSeasonality cur rs ss
     = fold addLineItemS (contributingLineItems cur rs ss) []"
  by (simp add: aggregateLineItemsWithSeasonality_def contributingLineItems_def
        fold_orders_recent fold_orders_seasonal)

lemma distinct_fold_addLineItemS:
  "distinct (map fst m) \<Longrightarrow> distinct (map fst (fold addLineItemS lis m))"
  by (induction lis arbitrary: m) (simp_all add: distinct_addLineItemS)

lemma distinct_aggregateLineItemsWithSeasonality:
  "distinct (map fst (aggregateLineItemsWithSeasonality cur rs ss))"
  by (simp add: aggregateLineItemsWithSeasonality_fold distinct_fold_addLineItemS)

subsection \<open>The aggregator of \<^verbatim>\<open>server.js\<close>\<close>

lemma obj_get_addLineItem:
  "obj_get (addLineItem li m) =
     (if identified li
      then (obj_get m)(keyOf li \<mapsto>
             (case obj_get m (keyOf li) of
                None \<Rightarrow> \<lparr>a_qty = quantityOf li, a_title = titleOf li\<rparr>
              | Some e \<Rightarrow> e\<lparr>a_qty := a_qty e + quantityOf li\<rparr>))
      else obj_get m)"
  by (auto simp: addLineItem_def identified_def keyOf_def Let_def obj_get_modify obj_get_create
        fun_eq_iff split: option.splits)

lemma distinct_addLineItem:
  "distinct (map fst m) \<Longrightarrow> distinct (map fst (addLineItem li m))"
  by (auto simp: addLineItem_def Let_def keys_obj_modify distinct_obj_create)

lemma obj_get_fold_addLineItem:
  "obj_get (fold addLineItem lis m) k =
     (case lineItemsWithKey k lis of
        [] \<Rightarrow> obj_get m k
      | li # r \<Rightarrow>
          Some (case obj_get m k of
                  None \<Rightarrow> \<lparr>a_qty = sum_list (map quantityOf (li # r)), a_title = titleOf li\<rparr>
                | Some e \<Rightarrow> e\<lparr>a_qty := a_qty e + sum_list (map quantityOf (li # r))\<rparr>))"
proof (induction lis arbitrary: m)
  case Nil
  then show ?case by (simp add: lineItemsWithKey_def)
next
  case (Cons a lis)
  show ?case
    using Cons.IH [of "addLineItem a m"]
    by (simp add: lineItemsWithKey_def obj_get_addLineItem split: list.splits option.splits)
qed

lemma aggregateLineItems_fold:
  "aggregateLineItems orders = fold addLineItem (allLineItems orders) []"
proof -
  have "fold (\<lambda>ord m. case o_line_items ord of None \<Rightarrow> m | Some lis \<Rightarrow> fold addLineItem lis m) os m
      = fold addLineItem (allLineItems os) m" for os m
    by (induction os arbitrary: m)
       (simp_all add: allLineItems_def lineItemsOf_def split: option.splits)
  then show ?thesis by (simp add: aggregateLineItems_def)
qed

lemma obj_get_aggregateLineItems:
  "obj_get (aggregateLineItems orders) k =
     (case lineItemsWithKey k (allLineItems orders) of
        [] \<Rightarrow> None
      | li # r \<Rightarrow> Some \<lparr>a_qty = sum_list (map quantityOf (li # r)), a_title = titleOf li\<rparr>)"
  by (simp add: aggregateLineItems_fold obj_get_fold_addLineItem obj_get_Nil split: list.splits)

lemma distinct_fold_addLineItem:
  "distinct (map fst m) \<Longrightarrow> distinct (map fst (fold addLineItem lis m))"
  by (induction lis arbitrary: m) (simp_all add: distinct_addLineItem)

lemma distinct_aggregateLineItems: "distinct (map fst (aggregateLineItems orders))"
  by (simp add: aggregateLineItems_fold distinct_fold_addLineItem)

text \<open>
  In \<^verbatim>\<open>server.js\<close> a line item with no truthy identifier leaves the map as it is:
  no entry, no quantity, no error.
\<close>

lemma addLineItem_unidentified:
  "\<not> truthy (li_variant_id li) \<Longrightarrow> \<not> truthy (li_product_id li) \<Longrightarrow> addLineItem li m = m"
  by (simp add: addLineItem_def js_or_def)

subsection \<open>Rounding and the forecast items\<close>

text \<open>\<open>js_round_div\<close> is rounding to the nearest integer, ties going up.\<close>

lemma js_round_div_floor:
  "0 < m \<Longrightarrow> js_round_div t m = \<lfloor>real_of_int t / real_of_int m + 1 / 2\<rfloor>"
proof -
  assume m: "0 < m"
  have "real_of_int t / real_of_int m + 1 / 2 = real_of_int (2 * t + m) / real_of_int (2 * m)"
    using m by (simp add: field_simps)
  then show ?thesis
    by (simp only: js_round_div_def floor_divide_of_int_eq)
qed

lemma js_round_div_nonpos: "0 < m \<Longrightarrow> t \<le> 0 \<Longrightarrow> js_round_div t m \<le> 0"
proof -
  assume "0 < m" "t \<le> 0"
  then have lt: "2 * t + m < 2 * m" and pos: "0 < 2 * m" by simp_all
  have "(2 * t + m) div (2 * m) \<le> 0"
  proof (cases "2 * t + m < 0")
    case True
    then show ?thesis using pos div_neg_pos_less0 [of "2 * t + m" "2 * m"] by simp
  next
    case False
    then show ?thesis using lt div_pos_pos_trivial [of "2 * t + m" "2 * m"] by simp
  qed
  then show ?thesis by (simp add: js_round_div_def)
qed

lemma variant_id_forecastEntry: "variant_id (forecastEntry months kv) = fst kv"
  by (cases kv) (simp add: forecastEntry_def Let_def)

lemma variant_id_forecastPush: "variant_id (forecastPush months kv) = fst kv"
  by (cases kv) (simp add: forecastPush_def Let_def)

lemma totalQty_forecastEntry: "totalQty (forecastEntry months kv) = a_qty (snd kv)"
  by (cases kv) (simp add: forecastEntry_def Let_def)

lemma qty_forecastEntry:
  "qty (forecastEntry months kv) =
     min (if 0 < a_qty (snd kv) \<and> js_round_div (a_qty (snd kv)) months < 1 then 1
          else js_round_div (a_qty (snd kv)) months) 50"
  by (cases kv) (simp add: forecastEntry_def Let_def)

lemma qty_forecastPush:
  "qty (forecastPush months kv) =
     (if 0 < js_round_div (s_totalQty (snd kv)) months
      then js_round_div (s_totalQty (snd kv)) months else 1)"
  by (cases kv) (simp add: forecastPush_def Let_def)

lemma distinct_map_sort_key:
  "distinct (map g (sort_key f xs)) = distinct (map g xs)"
proof -
  have "mset (map g (sort_key f xs)) = mset (map g xs)" by simp
  then show ?thesis by (rule mset_eq_imp_distinct_iff)
qed

lemma distinct_map_take: "distinct (map g xs) \<Longrightarrow> distinct (map g (take n xs))"
  by (simp add: take_map [symmetric] distinct_take)

lemma set_buildForecastFromAggregates:
  "set (buildForecastFromAggregates m months topN) \<subseteq> forecastEntry months ` set m"
  unfolding buildForecastFromAggregates_def
  using set_take_subset [of topN "sort_key (\<lambda>i. - totalQty i) (map (forecastEntry months) m)"]
  by simp

lemma set_buildForecast:
  "set (buildForecast im rm topN) \<subseteq> forecastPush rm ` set im"
  unfolding buildForecast_def
  using set_take_subset [of topN "sort_key (\<lambda>i. - qty i) (map (forecastPush rm) im)"]
  by simp

lemma variant_id_forecastPushMonthly1:
  "map variant_id (forecastPushMonthly cur months kv)
     = (if forecastPushMonthly cur months kv \<noteq> [] then [fst kv] else [])"
  by (cases kv) (simp add: forecastPushMonthly_def Let_def)

lemma variant_id_forecastPushMonthly:
  "map variant_id (concat (map (forecastPushMonthly cur months) mm))
     = map fst (filter (\<lambda>kv. forecastPushMonthly cur months kv \<noteq> []) mm)"
  by (induction mm) (simp_all add: variant_id_forecastPushMonthly1)

subsection \<open>The route\<close>

lemma shopifyFetch_not_ok:
  "\<not> (200 \<le> st \<and> st \<le> 299) \<Longrightarrow>
     fetchCustomerOrders (FetchResponse st txt js)
       = Inl \<lparr>e_message = ''Shopify API error: '' @ showInt st @ '' '' @ txt, e_status = Some st\<rparr>"
  by (simp add: fetchCustomerOrders_def shopifyFetch_def)

subsection \<open>The aggregator and the forecaster of \<^verbatim>\<open>part_000\<close>\<close>

lemma obj_get_addLineItemM:
  "obj_get (addLineItemM month li m) =
     (obj_get m)(keyOf li \<mapsto>
        (let e = (case obj_get m (keyOf li) of
                    None \<Rightarrow> \<lparr>m_title = titleOf li, m_totalQty = 0, m_monthlyQty = Map.empty\<rparr>
                  | Some e \<Rightarrow> e)
         in e\<lparr>m_totalQty := m_totalQty e + quantityOf li,
              m_monthlyQty := (m_monthlyQty e)
                (month \<mapsto> (case m_monthlyQty e month of None \<Rightarrow> 0 | Some q \<Rightarrow> q) + quantityOf li)\<rparr>))"
  by (auto simp: addLineItemM_def keyOf_def Let_def obj_get_modify obj_get_create fun_eq_iff
        split: option.splits)

lemma distinct_addLineItemM:
  "distinct (map fst m) \<Longrightarrow> distinct (map fst (addLineItemM month li m))"
  by (auto simp: addLineItemM_def Let_def keys_obj_modify distinct_obj_create)

lemma monthsWithinTotal_step:
  assumes "0 \<le> m_totalQty e" and "monthsWithinTotal e" and "0 \<le> q"
  shows "monthsWithinTotal
           (e\<lparr>m_totalQty := m_totalQty e + q,
              m_monthlyQty := (m_monthlyQty e)
                (month \<mapsto> (case m_monthlyQty e month of None \<Rightarrow> 0 | Some x \<Rightarrow> x) + q)\<rparr>)"
  unfolding monthsWithinTotal_def
proof (intro allI impI)
  fix mo x
  assume h: "m_monthlyQty
       (e\<lparr>m_totalQty := m_totalQty e + q,
          m_monthlyQty := (m_monthlyQty e)
            (month \<mapsto> (case m_monthlyQty e month of None \<Rightarrow> 0 | Some x \<Rightarrow> x) + q)\<rparr>) mo = Some x"
  have old: "m_monthlyQty e mo' = Some y \<Longrightarrow> y \<le> m_totalQty e" for mo' y
    using assms(2) by (simp add: monthsWithinTotal_def)
  show "x \<le> m_totalQty
       (e\<lparr>m_totalQty := m_totalQty e + q,
          m_monthlyQty := (m_monthlyQty e)
            (month \<mapsto> (case m_monthlyQty e month of None \<Rightarrow> 0 | Some x \<Rightarrow> x) + q)\<rparr>)"
  proof (cases "mo = month")
    case True
    then have x: "x = (case m_monthlyQty e month of None \<Rightarrow> 0 | Some x \<Rightarrow> x) + q"
      using h by simp
    show ?thesis
    proof (cases "m_monthlyQty e month")
      case None
      then show ?thesis using x assms(1) by simp
    next
      case (Some y)
      then show ?thesis using x old [of month y] by simp
    qed
  next
    case False
    then have "m_monthlyQty e mo = Some x" using h by simp
    then show ?thesis using old [of mo x] assms(3) by simp
  qed
qed

lemma entriesWithinTotal_addLineItemM:
  assumes inv: "entriesWithinTotal m"
    and q: "0 \<le> quantityOf li"
  shows "entriesWithinTotal (addLineItemM month li m)"
  unfolding entriesWithinTotal_def
proof (intro allI impI)
  fix k e
  assume ge: "obj_get (addLineItemM month li m) k = Some e"
  define e0 where "e0 = (case obj_get m (keyOf li) of
                    None \<Rightarrow> \<lparr>m_title = titleOf li, m_totalQty = 0, m_monthlyQty = Map.empty\<rparr>
                  | Some e \<Rightarrow> e)"
  have good0: "0 \<le> m_totalQty e0 \<and> monthsWithinTotal e0"
  proof (cases "obj_get m (keyOf li)")
    case None
    then show ?thesis by (simp add: e0_def monthsWithinTotal_def)
  next
    case (Some x)
    then show ?thesis using inv by (simp add: e0_def entriesWithinTotal_def)
  qed
  show "0 \<le> m_totalQty e \<and> monthsWithinTotal e"
  proof (cases "k = keyOf li")
    case True
    then have "e = e0\<lparr>m_totalQty := m_totalQty e0 + quantityOf li,
              m_monthlyQty := (m_monthlyQty e0)
                (month \<mapsto> (case m_monthlyQty e0 month of None \<Rightarrow> 0 | Some q \<Rightarrow> q)
                           + quantityOf li)\<rparr>"
      using ge by (simp add: obj_get_addLineItemM e0_def Let_def)
    then show ?thesis
      using good0 q monthsWithinTotal_step [of e0 "quantityOf li" month] by simp
  next
    case False
    then have "obj_get m k = Some e"
      using ge by (simp add: obj_get_addLineItemM)
    then show ?thesis using inv by (simp add: entriesWithinTotal_def)
  qed
qed

lemma entriesWithinTotal_fold_addLineItemM:
  "entriesWithinTotal m \<Longrightarrow> \<forall>li \<in> set lis. 0 \<le> quantityOf li \<Longrightarrow>
   entriesWithinTotal (fold (addLineItemM month) lis m)"
proof (induction lis arbitrary: m)
  case Nil
  then show ?case by simp
next
  case (Cons li lis)
  have "entriesWithinTotal (addLineItemM month li m)"
    using Cons.prems by (intro entriesWithinTotal_addLineItemM) simp_all
  moreover have "\<forall>li \<in> set lis. 0 \<le> quantityOf li"
    using Cons.prems(2) by simp
  ultimately have "entriesWithinTotal (fold (addLineItemM month) lis (addLineItemM month li m))"
    by (rule Cons.IH)
  then show ?case by simp
qed

lemma entriesWithinTotal_fold_orders:
  "entriesWithinTotal m \<Longrightarrow> \<forall>li \<in> set (allLineItems os). 0 \<le> quantityOf li \<Longrightarrow>
   entriesWithinTotal
     (fold (\<lambda>ord m. fold (addLineItemM (o_month ord)) (lineItemsOf ord) m) os m)"
proof (induction os arbitrary: m)
  case Nil
  then show ?case by simp
next
  case (Cons ord os)
  have "\<forall>li \<in> set (lineItemsOf ord). 0 \<le> quantityOf li"
    using Cons.prems(2) by (simp add: allLineItems_def)
  with Cons.prems(1)
  have 1: "entriesWithinTotal (fold (addLineItemM (o_month ord)) (lineItemsOf ord) m)"
    by (rule entriesWithinTotal_fold_addLineItemM)
  have 2: "\<forall>li \<in> set (allLineItems os). 0 \<le> quantityOf li"
    using Cons.prems(2) by (simp add: allLineItems_def)
  have "entriesWithinTotal
     (fold (\<lambda>ord m. fold (addLineItemM (o_month ord)) (lineItemsOf ord) m) os
        (fold (addLineItemM (o_month ord)) (lineItemsOf ord) m))"
    using 1 2 by (rule Cons.IH)
  then show ?case by simp
qed

lemma monthsWithinTotal_aggregateLineItemsMonthly:
  assumes "\<forall>li \<in> set (allLineItems orders). 0 \<le> quantityOf li"
    and "obj_get (aggregateLineItemsMonthly orders) k = Some e"
  shows "monthsWithinTotal e"
proof -
  have "entriesWithinTotal ([] :: magg jsobj)"
    by (simp add: entriesWithinTotal_def obj_get_Nil)
  then have "entriesWithinTotal (aggregateLineItemsMonthly orders)"
    unfolding aggregateLineItemsMonthly_def
    using assms(1) by (rule entriesWithinTotal_fold_orders)
  then show ?thesis
    using assms(2) by (simp add: entriesWithinTotal_def)
qed

lemma distinct_aggregateLineItemsMonthly:
  "distinct (map fst (aggregateLineItemsMonthly orders))"
proof -
  have inner: "distinct (map fst m) \<Longrightarrow> distinct (map fst (fold (addLineItemM mo) lis m))"
    for m mo lis
    by (induction lis arbitrary: m) (simp_all add: distinct_addLineItemM)
  have "distinct (map fst m) \<Longrightarrow>
        distinct (map fst (fold (\<lambda>ord m. fold (addLineItemM (o_month ord)) (lineItemsOf ord) m) os m))"
    for m os
    by (induction os arbitrary: m) (simp_all add: inner)
  then show ?thesis by (simp add: aggregateLineItemsMonthly_def)
qed

lemma forecastPushMonthly_positive:
  "i \<in> set (forecastPushMonthly cur months kv) \<Longrightarrow> 0 < qty i"
  by (cases kv) (auto simp: forecastPushMonthly_def Let_def split: if_splits)

lemma forecastPushMonthly_excluded:
  assumes "0 < months" and "m_totalQty d \<le> 0" and "monthsWithinTotal d"
  shows "forecastPushMonthly cur months (k, d) = []"
proof -
  have "m_totalQty d * months \<le> 0"
    using assms(1,2) by (simp add: mult_le_0_iff)
  moreover have "(case m_monthlyQty d (Some cur) of None \<Rightarrow> 0 | Some q \<Rightarrow> q) \<le> 0"
  proof (cases "m_monthlyQty d (Some cur)")
    case None
    then show ?thesis by simp
  next
    case (Some q)
    then have "q \<le> m_totalQty d" using assms(3) by (simp add: monthsWithinTotal_def)
    then show ?thesis using Some assms(2) by simp
  qed
  ultimately show ?thesis
    by (simp add: forecastPushMonthly_def Let_def)
qed

lemma set_buildForecastMonthly:
  "set (buildForecastMonthly cur mm months) = (\<Union>kv \<in> set mm. set (forecastPushMonthly cur months kv))"
  by (simp add: buildForecastMonthly_def)

lemma buildForecastMonthly_excludes:
  assumes "0 < months"
    and "\<forall>li \<in> set (allLineItems orders). 0 \<le> quantityOf li"
    and "obj_get (aggregateLineItemsMonthly orders) k = Some d"
    and "m_totalQty d \<le> 0"
  shows "k \<notin> variant_id ` set (buildForecastMonthly cur (aggregateLineItemsMonthly orders) months)"
proof
  let ?mm = "aggregateLineItemsMonthly orders"
  assume "k \<in> variant_id ` set (buildForecastMonthly cur ?mm months)"
  then have "k \<in> set (map variant_id (concat (map (forecastPushMonthly cur months) ?mm)))"
    by (simp add: buildForecastMonthly_def)
  then have "k \<in> fst ` {kv \<in> set ?mm. forecastPushMonthly cur months kv \<noteq> []}"
    by (simp only: variant_id_forecastPushMonthly set_map set_filter)
  then obtain d' where in_mm: "(k, d') \<in> set ?mm"
    and ne: "forecastPushMonthly cur months (k, d') \<noteq> []"
    by auto
  have "obj_get ?mm k = Some d'"
    using in_mm distinct_aggregateLineItemsMonthly [of orders]
    by (simp add: obj_get_def)
  then have "d' = d" using assms(3) by simp
  moreover have "monthsWithinTotal d"
    using assms(2,3) by (rule monthsWithinTotal_aggregateLineItemsMonthly)
  ultimately show False
    using ne forecastPushMonthly_excluded [OF assms(1) assms(4), of cur k] by simp
qed

text \<open>
  For a positive window the forecaster of \<^verbatim>\<open>part_000\<close> pushes an entry exactly when
  its predicted quantity is positive, with that quantity.
\<close>

lemma forecastPushMonthly_predicted:
  assumes "0 < months"
  shows "forecastPushMonthly cur months kv =
     (if 0 < predictedMonthly cur months (snd kv)
      then [\<lparr>variant_id = fst kv, qty = predictedMonthly cur months (snd kv),
             title = m_title (snd kv)\<rparr>]
      else [])"
proof -
  have s: "(0 < m_totalQty (snd kv) * months) = (0 < m_totalQty (snd kv))"
    using assms by (simp add: zero_less_mult_iff)
  have r: "js_round_div (m_totalQty (snd kv)) months
             = \<lfloor>real_of_int (m_totalQty (snd kv)) / real_of_int months + 1 / 2\<rfloor>"
    using assms by (rule js_round_div_floor)
  show ?thesis
    by (cases kv) (use s r in \<open>simp add: forecastPushMonthly_def predictedMonthly_def Let_def\<close>)
qed

lemma concat_forecastPushMonthly:
  assumes "0 < months"
  shows "concat (map (forecastPushMonthly cur months) mm) =
     map (\<lambda>kv. \<lparr>variant_id = fst kv, qty = predictedMonthly cur months (snd kv),
                 title = m_title (snd kv)\<rparr>)
       (filter (\<lambda>kv. 0 < predictedMonthly cur months (snd kv)) mm)"
  by (induction mm) (simp_all add: forecastPushMonthly_predicted [OF assms])

subsection \<open>Numbers as text and back\<close>

lemma digit_val_digit_char: "0 \<le> d \<Longrightarrow> d < 10 \<Longrightarrow> digit_val (digit_char d) = Some d"
  by (simp add: digit_val_def digit_char_def)

lemma digit_val_separators:
  "digit_val CHR '','' = None" "digit_val CHR '':'' = None" "digit_val CHR ''-'' = None"
  by (simp_all add: digit_val_def)

lemma showNat_digits:
  "0 \<le> n \<Longrightarrow> c \<in> set (showNat n) \<Longrightarrow> digit_val c \<noteq> None"
proof (induction n rule: showNat.induct)
  case (1 n)
  show ?case
  proof (cases "n < 10")
    case True
    then show ?thesis
      using "1.prems" by (simp add: showNat.simps [of n] digit_val_digit_char)
  next
    case False
    then have "c \<in> set (showNat (n div 10)) \<or> c = digit_char (n mod 10)"
      using "1.prems"(2) by (auto simp: showNat.simps [of n])
    then show ?thesis
    proof
      assume "c \<in> set (showNat (n div 10))"
      then show ?thesis using "1.IH" [OF False] "1.prems"(1) False by simp
    next
      assume "c = digit_char (n mod 10)"
      then show ?thesis by (simp add: digit_val_digit_char)
    qed
  qed
qed

lemma showNat_not_Nil: "showNat n \<noteq> []"
  by (simp add: showNat.simps [of n])

lemma readDigits_snoc:
  "readDigits acc (xs @ [c]) =
     (case readDigits acc xs of
        None \<Rightarrow> None
      | Some a \<Rightarrow> (case digit_val c of None \<Rightarrow> None | Some d \<Rightarrow> Some (10 * a + d)))"
  by (induction xs arbitrary: acc) (simp_all split: option.splits)

lemma readDigits_showNat: "0 \<le> n \<Longrightarrow> readDigits 0 (showNat n) = Some n"
proof (induction n rule: showNat.induct)
  case (1 n)
  show ?case
  proof (cases "n < 10")
    case True
    then show ?thesis
      using "1.prems" by (simp add: showNat.simps [of n] digit_val_digit_char)
  next
    case False
    then have "readDigits 0 (showNat (n div 10)) = Some (n div 10)"
      using "1.IH" "1.prems" by simp
    then show ?thesis
      using False by (simp add: showNat.simps [of n] readDigits_snoc digit_val_digit_char)
  qed
qed

lemma readNat_showNat: "0 \<le> n \<Longrightarrow> readNat (showNat n) = Some n"
  by (simp add: readNat_def showNat_not_Nil readDigits_showNat)

lemma readInt_showInt: "readInt (showInt i) = Some i"
proof (cases "i < 0")
  case True
  then show ?thesis by (simp add: readInt_def showInt_def readNat_showNat)
next
  case False
  obtain c cs where s: "showNat i = c # cs"
    using showNat_not_Nil [of i] by (cases "showNat i") auto
  have "digit_val c \<noteq> None"
    using showNat_digits [of i c] False s by simp
  then have "c \<noteq> CHR ''-''" using digit_val_separators(3) by auto
  then show ?thesis
    using False s readNat_showNat [of i] by (simp add: readInt_def showInt_def)
qed

lemma safeToken_showInt: "safeToken (showInt i)"
proof -
  have "c \<in> set (showInt i) \<Longrightarrow> c \<noteq> CHR '','' \<and> c \<noteq> CHR '':''" for c
    using showNat_digits [of i c] showNat_digits [of "- i" c] digit_val_separators
    by (auto simp: showInt_def split: if_splits)
  then show ?thesis by (auto simp: safeToken_def)
qed

subsection \<open>Splitting and the cart path\<close>

lemma splitOn_no_sep: "c \<notin> set s \<Longrightarrow> splitOn c s = [s]"
  by (induction s) auto

lemma splitOn_sep: "c \<notin> set s \<Longrightarrow> splitOn c (s @ c # t) = s # splitOn c t"
  by (induction s) auto

lemma splitOn_join:
  "parts \<noteq> [] \<Longrightarrow> \<forall>p \<in> set parts. c \<notin> set p \<Longrightarrow> splitOn c (join [c] parts) = parts"
proof (induction "[c]" parts rule: join.induct)
  case 1
  then show ?case by simp
next
  case (2 x)
  then show ?case by (simp add: splitOn_no_sep)
next
  case (3 x y r)
  then show ?case by (simp add: splitOn_sep)
qed

lemma parseToken_render:
  "CHR '':'' \<notin> set v \<Longrightarrow> parseToken (v @ CHR '':'' # showInt q) = Some (v, q)"
  using safeToken_showInt [of q]
  by (simp add: parseToken_def splitOn_sep splitOn_no_sep readInt_showInt safeToken_def)

lemma those_map_Some:
  "\<forall>x \<in> set xs. g x = Some (f x) \<Longrightarrow> those (map g xs) = Some (map f xs)"
  by (induction xs) simp_all

lemma parseCartPath_buildCartUrl:
  fixes items :: "'a item_scheme list"
  assumes "\<forall>i \<in> set items. safeToken (variant_id i)"
  shows "parseCartPath (buildCartUrl items) = Some (map (\<lambda>i. (variant_id i, qty i)) items)"
proof (cases "items = []")
  case True
  then show ?thesis by (simp add: buildCartUrl_def parseCartPath_def)
next
  case False
  let ?tok = "\<lambda>i :: 'a item_scheme. variant_id i @ '':'' @ showInt (qty i)"
  have nocomma: "\<forall>p \<in> set (map ?tok items). CHR '','' \<notin> set p"
    using assms safeToken_showInt by (auto simp: safeToken_def)
  have split: "splitOn CHR '','' (join '','' (map ?tok items)) = map ?tok items"
    using False nocomma by (intro splitOn_join) simp_all
  have tok: "\<forall>i \<in> set items. (parseToken \<circ> ?tok) i = Some (variant_id i, qty i)"
    using assms by (simp add: parseToken_render safeToken_def)
  have th: "those (map (parseToken \<circ> ?tok) items)
              = Some (map (\<lambda>i. (variant_id i, qty i)) items)"
    using tok by (rule those_map_Some)
  have "parseCartPath (buildCartUrl items) = those (map (parseToken \<circ> ?tok) items)"
    using False split by (simp add: parseCartPath_def buildCartUrl_def)
  then show ?thesis by (simp only: th)
qed

text \<open>The identifiers the aggregators make hold no separator.\<close>

lemma safeToken_keyOf: "safeToken (keyOf li)"
proof (cases "js_or (li_variant_id li) (li_product_id li)")
  case JUndefined
  then show ?thesis by (simp add: keyOf_def safeToken_def)
next
  case JNull
  then show ?thesis by (simp add: keyOf_def safeToken_def)
next
  case (JNum n)
  then show ?thesis by (simp add: keyOf_def safeToken_showInt)
qed

lemma obj_get_Some_iff_key: "(obj_get m k \<noteq> None) = (k \<in> fst ` set m)"
  by (simp add: obj_get_def map_of_eq_None_iff)

lemma keys_aggregateLineItems:
  "k \<in> fst ` set (aggregateLineItems orders) \<Longrightarrow> safeToken k"
proof -
  assume "k \<in> fst ` set (aggregateLineItems orders)"
  then have "obj_get (aggregateLineItems orders) k \<noteq> None"
    by (simp only: obj_get_Some_iff_key)
  then have "lineItemsWithKey k (allLineItems orders) \<noteq> []"
    by (auto simp: obj_get_aggregateLineItems)
  then obtain li where "li \<in> set (lineItemsWithKey k (allLineItems orders))"
    by (cases "lineItemsWithKey k (allLineItems orders)") auto
  then have "keyOf li = k" by (simp add: lineItemsWithKey_def)
  then show ?thesis using safeToken_keyOf [of li] by simp
qed

lemma keys_aggregateLineItemsWithSeasonality:
  "k \<in> fst ` set (aggregateLineItemsWithSeasonality cur rs ss) \<Longrightarrow> safeToken k"
proof -
  let ?c = "filter (\<lambda>li. keyOf li = k) (contributingLineItems cur rs ss)"
  assume "k \<in> fst ` set (aggregateLineItemsWithSeasonality cur rs ss)"
  then have "obj_get (aggregateLineItemsWithSeasonality cur rs ss) k \<noteq> None"
    by (simp only: obj_get_Some_iff_key)
  then have "?c \<noteq> []"
    by (auto simp: aggregateLineItemsWithSeasonality_fold obj_get_fold_addLineItemS obj_get_Nil)
  then obtain li where "li \<in> set ?c"
    by (cases ?c) auto
  then have "keyOf li = k" by simp
  then show ?thesis using safeToken_keyOf [of li] by simp
qed

lemma safe_buildForecastFromAggregates:
  "\<forall>i \<in> set (buildForecastFromAggregates (aggregateLineItems orders) months topN).
      safeToken (variant_id i)"
proof
  fix i
  assume "i \<in> set (buildForecastFromAggregates (aggregateLineItems orders) months topN)"
  then obtain kv where "kv \<in> set (aggregateLineItems orders)" "i = forecastEntry months kv"
    using set_buildForecastFromAggregates [of "aggregateLineItems orders" months topN] by blast
  then show "safeToken (variant_id i)"
    using keys_aggregateLineItems [of "fst kv" orders] by (simp add: variant_id_forecastEntry)
qed

lemma safe_buildForecast:
  "\<forall>i \<in> set (buildForecast (aggregateLineItemsWithSeasonality cur rs ss) rm topN).
      safeToken (variant_id i)"
proof
  fix i
  assume "i \<in> set (buildForecast (aggregateLineItemsWithSeasonality cur rs ss) rm topN)"
  then obtain kv where "kv \<in> set (aggregateLineItemsWithSeasonality cur rs ss)"
      "i = forecastPush rm kv"
    using set_buildForecast [of "aggregateLineItemsWithSeasonality cur rs ss" rm topN] by blast
  then show "safeToken (variant_id i)"
    using keys_aggregateLineItemsWithSeasonality [of "fst kv" cur rs ss]
    by (simp add: variant_id_forecastPush)
qed

subsection \<open>Identifiers of a forecast\<close>

lemma distinct_buildForecastFromAggregates:
  assumes "distinct (map fst m)"
  shows "distinct (map variant_id (buildForecastFromAggregates m months topN))"
proof -
  have "map variant_id (map (forecastEntry months) m) = map fst m"
    by (simp add: variant_id_forecastEntry comp_def)
  then show ?thesis
    unfolding buildForecastFromAggregates_def
    by (intro distinct_map_take) (simp only: distinct_map_sort_key assms)
qed

lemma distinct_buildForecast:
  assumes "distinct (map fst itemsMap)"
  shows "distinct (map variant_id (buildForecast itemsMap recentMonths topN))"
proof -
  have "map variant_id (map (forecastPush recentMonths) itemsMap) = map fst itemsMap"
    by (simp add: variant_id_forecastPush comp_def)
  then show ?thesis
    unfolding buildForecast_def
    by (intro distinct_map_take) (simp only: distinct_map_sort_key assms)
qed

lemma distinct_buildForecastMonthly:
  assumes "distinct (map fst mm)"
  shows "distinct (map variant_id (buildForecastMonthly cur mm months))"
  unfolding buildForecastMonthly_def
  by (simp only: distinct_map_sort_key variant_id_forecastPushMonthly distinct_map_filter assms)

section \<open>The claims\<close>

text \<open>
  C1 (as amended). The forecast of \<^verbatim>\<open>server.js\<close> is in descending order of the
  entries' accumulated totals. The forecast of \<^verbatim>\<open>part_001\<close> is in descending order of
  the predicted (rounded, at least 1) quantities, not of the totals.
\<close>

theorem C1_forecast_order:
  "sorted_wrt (\<lambda>a b. totalQty b \<le> totalQty a) (buildForecastFromAggregates m months topN)
   \<and> sorted_wrt (\<lambda>a b. qty b \<le> qty a) (buildForecast itemsMap recentMonths topN)"
  unfolding buildForecastFromAggregates_def buildForecast_def
  by (intro conjI sorted_wrt_take sort_key_neg_desc)

text \<open>
  C1 as stated fails on \<^verbatim>\<open>part_001\<close>: totals 1 and 2 both give the predicted quantity
  1, the stable sort keeps the order of the map, and the item with total 1 comes before
  the item with total 2.
\<close>

theorem C1_total_order_counterexample:
  "map variant_id (buildForecast (aggregateLineItemsWithSeasonality 0 ordersOneTwo []) 6 20)
     = [''1'', ''2'']
   \<and> map (accumulatedTotal (aggregateLineItemsWithSeasonality 0 ordersOneTwo []))
       (buildForecast (aggregateLineItemsWithSeasonality 0 ordersOneTwo []) 6 20)
     = [1, 2]
   \<and> \<not> sorted_wrt (\<lambda>a b. b \<le> a)
       (map (accumulatedTotal (aggregateLineItemsWithSeasonality 0 ordersOneTwo []))
          (buildForecast (aggregateLineItemsWithSeasonality 0 ordersOneTwo []) 6 20))"
  by code_simp

text \<open>
  C2 (as amended). For a window of \<open>months > 0\<close> the value the forecasters round to is
  \<open>\<lfloor>t / months + 1/2\<rfloor>\<close>, the quotient rounded to the nearest integer with ties going
  up. When that value is below 1 and the total \<open>t\<close> is strictly positive, the predicted
  quantity is exactly 1, in \<^verbatim>\<open>server.js\<close> and in \<^verbatim>\<open>part_001\<close>. For a positive
  total the predicted quantity is the rounded value raised to at least 1 (and, in
  \<^verbatim>\<open>server.js\<close>, capped at 50). For a total that is not positive, \<^verbatim>\<open>server.js\<close>
  keeps the rounded value and \<^verbatim>\<open>part_001\<close> predicts 1.
\<close>

theorem C2_rounding_and_floor_rule:
  assumes "0 < months"
  shows "js_round_div t months = \<lfloor>real_of_int t / real_of_int months + 1 / 2\<rfloor>
       \<and> (0 < t \<and> js_round_div t months < 1 \<longrightarrow>
             qty (forecastEntry months (k, \<lparr>a_qty = t, a_title = ti\<rparr>)) = 1
           \<and> qty (forecastPush months (k, \<lparr>s_title = ti, s_totalQty = t\<rparr>)) = 1)
       \<and> (0 < t \<longrightarrow>
             qty (forecastEntry months (k, \<lparr>a_qty = t, a_title = ti\<rparr>))
               = min 50 (max 1 \<lfloor>real_of_int t / real_of_int months + 1 / 2\<rfloor>)
           \<and> qty (forecastPush months (k, \<lparr>s_title = ti, s_totalQty = t\<rparr>))
               = max 1 \<lfloor>real_of_int t / real_of_int months + 1 / 2\<rfloor>)
       \<and> (t \<le> 0 \<longrightarrow>
             qty (forecastEntry months (k, \<lparr>a_qty = t, a_title = ti\<rparr>))
               = \<lfloor>real_of_int t / real_of_int months + 1 / 2\<rfloor>
           \<and> qty (forecastPush months (k, \<lparr>s_title = ti, s_totalQty = t\<rparr>)) = 1)"
proof -
  let ?r = "js_round_div t months"
  have r: "?r = \<lfloor>real_of_int t / real_of_int months + 1 / 2\<rfloor>"
    using assms by (rule js_round_div_floor)
  have a: "qty (forecastEntry months (k, \<lparr>a_qty = t, a_title = ti\<rparr>))
             = min (if 0 < t \<and> ?r < 1 then 1 else ?r) 50"
    by (simp add: qty_forecastEntry)
  have c: "qty (forecastPush months (k, \<lparr>s_title = ti, s_totalQty = t\<rparr>))
             = (if 0 < ?r then ?r else 1)"
    by (simp add: qty_forecastPush)
  have np: "t \<le> 0 \<Longrightarrow> ?r \<le> 0"
    using assms by (simp add: js_round_div_nonpos)
  have 2: "0 < t \<and> ?r < 1 \<longrightarrow>
             qty (forecastEntry months (k, \<lparr>a_qty = t, a_title = ti\<rparr>)) = 1
           \<and> qty (forecastPush months (k, \<lparr>s_title = ti, s_totalQty = t\<rparr>)) = 1"
    by (simp add: a c)
  have 3: "0 < t \<longrightarrow>
             qty (forecastEntry months (k, \<lparr>a_qty = t, a_title = ti\<rparr>)) = min 50 (max 1 ?r)
           \<and> qty (forecastPush months (k, \<lparr>s_title = ti, s_totalQty = t\<rparr>)) = max 1 ?r"
    by (auto simp: a c)
  have 4: "t \<le> 0 \<longrightarrow>
             qty (forecastEntry months (k, \<lparr>a_qty = t, a_title = ti\<rparr>)) = ?r
           \<and> qty (forecastPush months (k, \<lparr>s_title = ti, s_totalQty = t\<rparr>)) = 1"
    using np by (auto simp: a c)
  show ?thesis
    using r 2 3 4 by (simp only: r [symmetric])
qed

text \<open>
  One unit in six months: the quotient rounds to 0 and the prediction is 1. Three units in
  six months are the tie 1/2, which goes up to 1; the tie -1/2 goes up to 0.
\<close>

theorem C2_rounding_and_floor_rule_witness:
  "(0::int) < 6
   \<and> js_round_div 1 6 = \<lfloor>real_of_int 1 / real_of_int 6 + 1 / 2\<rfloor>
   \<and> js_round_div 1 6 = 0
   \<and> js_round_div 3 6 = 1
   \<and> js_round_div (- 3) 6 = 0
   \<and> qty (forecastEntry 6 (''222'', \<lparr>a_qty = 1, a_title = ''Tea''\<rparr>)) = 1
   \<and> qty (forecastPush 6 (''222'', \<lparr>s_title = ''Tea'', s_totalQty = 1\<rparr>)) = 1"
  using C2_rounding_and_floor_rule [of 6 1 "''222''" "''Tea''"]
  by (simp add: js_round_div_def)

text \<open>
  C2 as stated makes the predicted quantity the rounded value whenever the floor rule does
  not apply. It is not so in two places: in \<^verbatim>\<open>part_001\<close> a total of 0 rounds to 0, is
  not strictly positive, and gets the quantity 1; in \<^verbatim>\<open>server.js\<close> a total of 600
  rounds to 100 and gets the quantity 50.
\<close>

theorem C2_predicted_is_not_rounded_counterexample:
  "js_round_div 0 6 = 0
   \<and> qty (forecastPush 6 (''7'', \<lparr>s_title = ''Tea'', s_totalQty = 0\<rparr>)) = 1
   \<and> buildForecast (aggregateLineItemsWithSeasonality 0 ordersZeroQuantity []) 6 20
       = [\<lparr>variant_id = ''7'', qty = 1, title = ''Tea''\<rparr>]
   \<and> js_round_div 600 6 = 100
   \<and> qty (forecastEntry 6 (''7'', \<lparr>a_qty = 600, a_title = ''Tea''\<rparr>)) = 50"
  by code_simp

text \<open>
  C3 (as amended). For a window of \<open>months > 0\<close>:
  \<^item> every item of the forecast of \<^verbatim>\<open>server.js\<close> has a quantity of at most 50, of at
    least 1 when the total of its entry is strictly positive, and not positive when the
    total is not positive; \<^verbatim>\<open>server.js\<close> excludes no entry: only the truncation to
    \<open>topN\<close> shortens the forecast;
  \<^item> every item of the forecast of \<^verbatim>\<open>part_000\<close> has a strictly positive quantity
    (there is no clamp), and an entry of the aggregate map whose total is not strictly
    positive is not in the forecast, the quantities of the line items being non-negative.
\<close>

theorem C3_quantity_bounds:
  assumes "0 < months"
    and "list_all (\<lambda>li. 0 \<le> quantityOf li) (allLineItems orders)"
  shows "(\<forall>i \<in> set (buildForecastFromAggregates m months topN).
            qty i \<le> 50 \<and> (0 < totalQty i \<longrightarrow> 1 \<le> qty i) \<and> (totalQty i \<le> 0 \<longrightarrow> qty i \<le> 0))
       \<and> length (buildForecastFromAggregates m months topN) = min topN (length m)
       \<and> (\<forall>i \<in> set (buildForecastMonthly cur mm months). 0 < qty i)
       \<and> (\<forall>k d. obj_get (aggregateLineItemsMonthly orders) k = Some d \<and> m_totalQty d \<le> 0 \<longrightarrow>
             k \<notin> variant_id ` set (buildForecastMonthly cur (aggregateLineItemsMonthly orders) months))"
proof -
  have a: "\<forall>i \<in> set (buildForecastFromAggregates m months topN).
            qty i \<le> 50 \<and> (0 < totalQty i \<longrightarrow> 1 \<le> qty i) \<and> (totalQty i \<le> 0 \<longrightarrow> qty i \<le> 0)"
  proof
    fix i
    assume mem: "i \<in> set (buildForecastFromAggregates m months topN)"
    obtain kv where i: "i = forecastEntry months kv"
      using mem set_buildForecastFromAggregates [of m months topN] by blast
    have np: "a_qty (snd kv) \<le> 0 \<Longrightarrow> js_round_div (a_qty (snd kv)) months \<le> 0"
      using assms(1) by (rule js_round_div_nonpos)
    show "qty i \<le> 50 \<and> (0 < totalQty i \<longrightarrow> 1 \<le> qty i) \<and> (totalQty i \<le> 0 \<longrightarrow> qty i \<le> 0)"
      using np by (auto simp: i qty_forecastEntry totalQty_forecastEntry)
  qed
  have b: "length (buildForecastFromAggregates m months topN) = min topN (length m)"
    by (simp add: buildForecastFromAggregates_def)
  have c: "\<forall>i \<in> set (buildForecastMonthly cur mm months). 0 < qty i"
    by (auto simp: set_buildForecastMonthly forecastPushMonthly_positive)
  have nn: "\<forall>li \<in> set (allLineItems orders). 0 \<le> quantityOf li"
    using assms(2) by (simp add: list_all_iff)
  have d: "\<forall>k d. obj_get (aggregateLineItemsMonthly orders) k = Some d \<and> m_totalQty d \<le> 0 \<longrightarrow>
             k \<notin> variant_id ` set (buildForecastMonthly cur (aggregateLineItemsMonthly orders) months)"
    using buildForecastMonthly_excludes [OF assms(1) nn] by blast
  show ?thesis by (intro conjI a b c d)
qed

text \<open>
  The forecast of \<open>ordersOneTwo\<close> in both versions, and the entry of total 0 of
  \<open>ordersZeroQuantity\<close>, which \<^verbatim>\<open>part_000\<close> leaves out.
\<close>

theorem C3_quantity_bounds_witness:
  "(0::int) < 6
   \<and> list_all (\<lambda>li. 0 \<le> quantityOf li) (allLineItems ordersZeroQuantity)
   \<and> list_all (\<lambda>i. qty i \<le> 50 \<and> 1 \<le> qty i)
        (buildForecastFromAggregates (aggregateLineItems ordersOneTwo) 6 12)
   \<and> length (buildForecastFromAggregates (aggregateLineItems ordersOneTwo) 6 12)
        = min 12 (length (aggregateLineItems ordersOneTwo))
   \<and> list_all (\<lambda>i. 0 < qty i)
        (buildForecastMonthly 0 (aggregateLineItemsMonthly ordersOneTwo) 6)
   \<and> map_option m_totalQty (obj_get (aggregateLineItemsMonthly ordersZeroQuantity) ''7'') = Some 0
   \<and> ''7'' \<notin> variant_id `
         set (buildForecastMonthly 0 (aggregateLineItemsMonthly ordersZeroQuantity) 6)"
proof -
  have h1: "(0::int) < 6" by simp
  have h2: "list_all (\<lambda>li. 0 \<le> quantityOf li) (allLineItems ordersZeroQuantity)"
    by code_simp
  have t: "list_all (\<lambda>i. 0 < totalQty i)
        (buildForecastFromAggregates (aggregateLineItems ordersOneTwo) 6 12)"
    by code_simp
  have e: "map_option m_totalQty (obj_get (aggregateLineItemsMonthly ordersZeroQuantity) ''7'')
             = Some 0"
    by code_simp
  then obtain d where d: "obj_get (aggregateLineItemsMonthly ordersZeroQuantity) ''7'' = Some d"
      "m_totalQty d \<le> 0"
    by auto
  note c3 = C3_quantity_bounds [OF h1 h2, where m = "aggregateLineItems ordersOneTwo"
      and topN = 12 and cur = 0 and mm = "aggregateLineItemsMonthly ordersOneTwo"]
  have 1: "list_all (\<lambda>i. qty i \<le> 50 \<and> 1 \<le> qty i)
        (buildForecastFromAggregates (aggregateLineItems ordersOneTwo) 6 12)"
    using c3 t by (simp add: list_all_iff)
  have 2: "''7'' \<notin> variant_id `
         set (buildForecastMonthly 0 (aggregateLineItemsMonthly ordersZeroQuantity) 6)"
    using c3 d by blast
  show ?thesis
    using h1 h2 e 1 2 c3 by (simp add: list_all_iff)
qed

text \<open>
  C3 as stated fails on \<^verbatim>\<open>server.js\<close>: an entry of total 0 is not excluded, and its
  item has the quantity 0.
\<close>

theorem C3_zero_total_counterexample:
  "buildForecastFromAggregates (aggregateLineItems ordersZeroQuantity) 6 12
     = [\<lparr>variant_id = ''7'', qty = 0, title = ''Tea'', totalQty = 0\<rparr>]"
  by code_simp

text \<open>
  C4. In the two-window aggregator of \<^verbatim>\<open>part_001\<close> the entry under a key is made of
  exactly the contributing line items with that key: every line item of a recent order,
  and a line item of a seasonal order if and only if the order's calendar month is the
  current one. The entry exists when there is such a line item, and its total is the sum
  of their quantities, recent and seasonal together. Leaving out the seasonal orders of
  the other months changes nothing of the map.
\<close>

theorem C4_two_window_totals:
  "obj_get (aggregateLineItemsWithSeasonality currentMonth recentOrders seasonalOrders) k =
     (case filter (\<lambda>li. keyOf li = k)
             (contributingLineItems currentMonth recentOrders seasonalOrders) of
        [] \<Rightarrow> None
      | li # r \<Rightarrow>
          Some \<lparr>s_title = titleOf li, s_totalQty = sum_list (map quantityOf (li # r))\<rparr>)
   \<and> aggregateLineItemsWithSeasonality currentMonth recentOrders
         (filter (\<lambda>ord. o_month ord = Some currentMonth) seasonalOrders)
       = aggregateLineItemsWithSeasonality currentMonth recentOrders seasonalOrders"
  by (simp add: aggregateLineItemsWithSeasonality_fold obj_get_fold_addLineItemS obj_get_Nil
        contributingLineItems_def split: list.splits)

text \<open>
  C5. The cart path of the empty sequence is \<^verbatim>\<open>/cart\<close>; the cart path of a
  non-empty sequence is \<^verbatim>\<open>/cart/\<close> followed by the tokens \<^verbatim>\<open>{id}:{qty}\<close>
  joined by commas, in the order of the sequence. Splitting the path back on the comma and
  then on the colon returns exactly the (identifier, quantity) pairs of the sequence, in
  the same order, for every sequence of items whose identifiers are safe path tokens. The
  forecast items are such a sequence: for a positive window, the path of every forecast
  that the forecasters of \<^verbatim>\<open>server.js\<close> and \<^verbatim>\<open>part_001\<close> build from orders
  reads back as the pairs of that forecast, whatever the orders and \<open>topN\<close>.
\<close>

theorem C5_cart_path_round_trip:
  fixes items :: "'a item_scheme list"
  assumes "0 < months" and "0 < recentMonths"
  shows "buildCartUrl ([] :: 'a item_scheme list) = ''/cart''
       \<and> (items \<noteq> [] \<longrightarrow>
            buildCartUrl items
              = ''/cart/'' @ join '','' (map (\<lambda>i. variant_id i @ '':'' @ showInt (qty i)) items))
       \<and> ((\<forall>i \<in> set items. safeToken (variant_id i)) \<longrightarrow>
            parseCartPath (buildCartUrl items) = Some (map (\<lambda>i. (variant_id i, qty i)) items))
       \<and> parseCartPath
             (buildCartUrl (buildForecastFromAggregates (aggregateLineItems orders) months topN))
           = Some (map (\<lambda>i. (variant_id i, qty i))
                    (buildForecastFromAggregates (aggregateLineItems orders) months topN))
       \<and> parseCartPath
             (buildCartUrl
                (buildForecast (aggregateLineItemsWithSeasonality cur rs ss) recentMonths topN))
           = Some (map (\<lambda>i. (variant_id i, qty i))
                    (buildForecast (aggregateLineItemsWithSeasonality cur rs ss) recentMonths topN))"
proof -
  have 1: "buildCartUrl ([] :: 'a item_scheme list) = ''/cart''"
    by (simp add: buildCartUrl_def)
  have 2: "items \<noteq> [] \<longrightarrow>
            buildCartUrl items
              = ''/cart/'' @ join '','' (map (\<lambda>i. variant_id i @ '':'' @ showInt (qty i)) items)"
    by (simp add: buildCartUrl_def)
  have 3: "(\<forall>i \<in> set items. safeToken (variant_id i)) \<longrightarrow>
            parseCartPath (buildCartUrl items) = Some (map (\<lambda>i. (variant_id i, qty i)) items)"
    using parseCartPath_buildCartUrl [of items] by blast
  have 4: "parseCartPath
             (buildCartUrl (buildForecastFromAggregates (aggregateLineItems orders) months topN))
           = Some (map (\<lambda>i. (variant_id i, qty i))
                    (buildForecastFromAggregates (aggregateLineItems orders) months topN))"
    using safe_buildForecastFromAggregates by (rule parseCartPath_buildCartUrl)
  have 5: "parseCartPath
             (buildCartUrl
                (buildForecast (aggregateLineItemsWithSeasonality cur rs ss) recentMonths topN))
           = Some (map (\<lambda>i. (variant_id i, qty i))
                    (buildForecast (aggregateLineItemsWithSeasonality cur rs ss) recentMonths topN))"
    using safe_buildForecast by (rule parseCartPath_buildCartUrl)
  show ?thesis by (intro conjI 1 2 3 4 5)
qed

text \<open>
  The forecasts of \<open>ordersOneTwo\<close> over six months, their cart paths, and the paths
  read back.
\<close>

theorem C5_cart_path_round_trip_witness:
  "(0::int) < 6
   \<and> list_all (\<lambda>i. safeToken (variant_id i))
      (buildForecast (aggregateLineItemsWithSeasonality 0 ordersOneTwo []) 6 20)
   \<and> buildCartUrl (buildForecast (aggregateLineItemsWithSeasonality 0 ordersOneTwo []) 6 20)
       = ''/cart/1:1,2:1''
   \<and> parseCartPath ''/cart/1:1,2:1'' = Some [(''1'', 1), (''2'', 1)]
   \<and> parseCartPath
        (buildCartUrl (buildForecastFromAggregates (aggregateLineItems ordersOneTwo) 6 12))
       = Some [(''2'', 1), (''1'', 1)]"
proof -
  let ?f = "buildForecast (aggregateLineItemsWithSeasonality 0 ordersOneTwo []) 6 20"
  let ?g = "buildForecastFromAggregates (aggregateLineItems ordersOneTwo) 6 12"
  have h0: "(0::int) < 6" by simp
  have h: "\<forall>i \<in> set ?f. safeToken (variant_id i)"
    by (rule safe_buildForecast)
  have u: "buildCartUrl ?f = ''/cart/1:1,2:1''" by code_simp
  have p: "map (\<lambda>i. (variant_id i, qty i)) ?f = [(''1'', 1), (''2'', 1)]" by code_simp
  have p': "map (\<lambda>i. (variant_id i, qty i)) ?g = [(''2'', 1), (''1'', 1)]" by code_simp
  note c5 = C5_cart_path_round_trip [OF h0 h0, where items = ?f and orders = ordersOneTwo and topN = 12]
  have a: "parseCartPath (buildCartUrl ?f) = Some (map (\<lambda>i. (variant_id i, qty i)) ?f)"
    using c5 h by blast
  have b: "parseCartPath (buildCartUrl ?g) = Some (map (\<lambda>i. (variant_id i, qty i)) ?g)"
    using c5 by blast
  have a': "parseCartPath ''/cart/1:1,2:1'' = Some [(''1'', 1), (''2'', 1)]"
    using a unfolding u p .
  have b': "parseCartPath (buildCartUrl ?g) = Some [(''2'', 1), (''1'', 1)]"
    using b unfolding p' .
  have l: "list_all (\<lambda>i. safeToken (variant_id i)) ?f"
    using h unfolding list_all_iff .
  show ?thesis
    by (intro conjI h0 l u a' b')
qed

text \<open>
  C6 (as amended). The forecasts of \<^verbatim>\<open>server.js\<close> and of \<^verbatim>\<open>part_001\<close> have at
  most \<open>topN\<close> items. An object has every key once; for a map that has every key
  once, and so for every map that the aggregators build from orders, the forecast has no
  identifier twice, in the three versions. The forecast of \<^verbatim>\<open>part_000\<close>, which has
  no \<open>topN\<close> parameter and truncates nothing, is for a positive window exactly this:
  one item for every entry whose predicted quantity (the rounded monthly average of an
  entry with a positive total, plus the quantity of the current calendar month) is
  strictly positive, carrying the key, that quantity and the title of the entry, the
  items sorted by descending quantity, equal quantities in the order of the entries; it
  has as many items as there are such entries.
\<close>

theorem C6_bounded_distinct:
  "length (buildForecastFromAggregates m months topN) \<le> topN
   \<and> length (buildForecast itemsMap recentMonths topN) \<le> topN
   \<and> (distinct (map fst m) \<longrightarrow>
        distinct (map variant_id (buildForecastFromAggregates m months topN)))
   \<and> (distinct (map fst itemsMap) \<longrightarrow>
        distinct (map variant_id (buildForecast itemsMap recentMonths topN)))
   \<and> (distinct (map fst mm) \<longrightarrow>
        distinct (map variant_id (buildForecastMonthly cur mm months')))
   \<and> distinct (map variant_id
         (buildForecastFromAggregates (aggregateLineItems orders) months topN))
   \<and> distinct (map variant_id
         (buildForecast (aggregateLineItemsWithSeasonality cur rs ss) recentMonths topN))
   \<and> distinct (map variant_id
         (buildForecastMonthly cur (aggregateLineItemsMonthly orders) months'))
   \<and> (0 < months' \<longrightarrow>
        buildForecastMonthly cur mm months'
          = sort_key (\<lambda>i. - qty i)
              (map (\<lambda>kv. \<lparr>variant_id = fst kv, qty = predictedMonthly cur months' (snd kv),
                            title = m_title (snd kv)\<rparr>)
                 (filter (\<lambda>kv. 0 < predictedMonthly cur months' (snd kv)) mm)))
   \<and> (0 < months' \<longrightarrow>
        length (buildForecastMonthly cur mm months')
          = length (filter (\<lambda>kv. 0 < predictedMonthly cur months' (snd kv)) mm))"
proof -
  have eq: "0 < months' \<longrightarrow>
        buildForecastMonthly cur mm months'
          = sort_key (\<lambda>i. - qty i)
              (map (\<lambda>kv. \<lparr>variant_id = fst kv, qty = predictedMonthly cur months' (snd kv),
                            title = m_title (snd kv)\<rparr>)
                 (filter (\<lambda>kv. 0 < predictedMonthly cur months' (snd kv)) mm))"
    by (simp add: buildForecastMonthly_def concat_forecastPushMonthly)
  have len: "0 < months' \<longrightarrow>
        length (buildForecastMonthly cur mm months')
          = length (filter (\<lambda>kv. 0 < predictedMonthly cur months' (snd kv)) mm)"
    by (simp add: buildForecastMonthly_def concat_forecastPushMonthly)
  have l1: "length (buildForecastFromAggregates m months topN) \<le> topN"
    by (simp add: buildForecastFromAggregates_def)
  have l2: "length (buildForecast itemsMap recentMonths topN) \<le> topN"
    by (simp add: buildForecast_def)
  show ?thesis
    by (intro conjI impI l1 l2 eq [rule_format] len [rule_format]
          distinct_buildForecastFromAggregates distinct_buildForecast
          distinct_buildForecastMonthly distinct_aggregateLineItems
          distinct_aggregateLineItemsWithSeasonality distinct_aggregateLineItemsMonthly)
qed

text \<open>
  The maps of the three aggregators on the same orders, with \<open>topN = 1\<close> and a window
  of six months; the forecast of \<^verbatim>\<open>part_000\<close> has both entries, with the quantities 2
  and 1.
\<close>

theorem C6_bounded_distinct_witness:
  "(0::int) < 6
   \<and> distinct (map fst (aggregateLineItems ordersOneTwo))
   \<and> distinct (map fst (aggregateLineItemsWithSeasonality 0 ordersOneTwo ordersOneTwo))
   \<and> distinct (map fst (aggregateLineItemsMonthly ordersOneTwo))
   \<and> length (buildForecastFromAggregates (aggregateLineItems ordersOneTwo) 6 1) \<le> 1
   \<and> distinct (map variant_id (buildForecastFromAggregates (aggregateLineItems ordersOneTwo) 6 1))
   \<and> length (buildForecast (aggregateLineItemsWithSeasonality 0 ordersOneTwo ordersOneTwo) 6 1) \<le> 1
   \<and> distinct (map variant_id
         (buildForecast (aggregateLineItemsWithSeasonality 0 ordersOneTwo ordersOneTwo) 6 1))
   \<and> distinct (map variant_id (buildForecastMonthly 0 (aggregateLineItemsMonthly ordersOneTwo) 6))
   \<and> length (buildForecastMonthly 0 (aggregateLineItemsMonthly ordersOneTwo) 6)
       = length (filter (\<lambda>kv. 0 < predictedMonthly 0 6 (snd kv))
                   (aggregateLineItemsMonthly ordersOneTwo))
   \<and> map variant_id (buildForecastMonthly 0 (aggregateLineItemsMonthly ordersOneTwo) 6)
       = [''2'', ''1'']
   \<and> map qty (buildForecastMonthly 0 (aggregateLineItemsMonthly ordersOneTwo) 6) = [2, 1]"
proof -
  have h0: "(0::int) < 6" by simp
  have h1: "distinct (map fst (aggregateLineItems ordersOneTwo))" by code_simp
  have h2: "distinct (map fst (aggregateLineItemsWithSeasonality 0 ordersOneTwo ordersOneTwo))"
    by code_simp
  have h3: "distinct (map fst (aggregateLineItemsMonthly ordersOneTwo))" by code_simp
  have v: "map variant_id (buildForecastMonthly 0 (aggregateLineItemsMonthly ordersOneTwo) 6)
       = [''2'', ''1'']" by code_simp
  have q: "map qty (buildForecastMonthly 0 (aggregateLineItemsMonthly ordersOneTwo) 6) = [2, 1]"
    by code_simp
  note c6 = C6_bounded_distinct [where m = "aggregateLineItems ordersOneTwo" and months = 6
        and topN = 1 and recentMonths = 6 and cur = 0 and months' = 6
        and itemsMap = "aggregateLineItemsWithSeasonality 0 ordersOneTwo ordersOneTwo"
        and mm = "aggregateLineItemsMonthly ordersOneTwo"]
  show ?thesis
    using h0 h1 h2 h3 v q c6 by blast
qed

text \<open>
  C6 as stated fails on \<^verbatim>\<open>part_000\<close>, whose forecaster has no bound: the forecast
  of twenty-one items has twenty-one items.
\<close>

theorem C6_unbounded_forecast_counterexample:
  "length (buildForecastMonthly 0 (aggregateLineItemsMonthly ordersTwentyOne) 6) = 21
   \<and> \<not> length (buildForecastMonthly 0 (aggregateLineItemsMonthly ordersTwentyOne) 6) \<le> 20"
  by code_simp

text \<open>
  C7. For a request that names a customer (by identifier or by email, so that the route
  reaches the order source): when the order source answers with a status outside 200 to
  299, the route replies with that same status and the error message built from it (the
  status 0, which no HTTP response has, would be read as missing); an upstream 401 gives
  the reply 401; a failure that carries no status (a rejected fetch, a body that is not
  JSON) gives the reply 500.
\<close>

theorem C7_upstream_status_preserved:
  assumes "strTruthy (str_or (body_customer_id req) (query_customer_id req))
         \<or> strTruthy (str_or (body_email req) (query_email req))"
  shows "(\<not> (200 \<le> st \<and> st \<le> 299) \<and> st \<noteq> 0 \<longrightarrow>
            forecastRoute req (FetchResponse st txt js)
              = \<lparr>r_status = st,
                 r_body = ErrorBody (''Shopify API error: '' @ showInt st @ '' '' @ txt)\<rparr>)
       \<and> (\<not> (200 \<le> st \<and> st \<le> 299) \<longrightarrow>
            r_status (forecastRoute req (FetchResponse st txt js)) = (if st = 0 then 500 else st))
       \<and> r_status (forecastRoute req (FetchResponse 401 txt js)) = 401
       \<and> r_status (forecastRoute req (FetchRejected msg)) = 500
       \<and> (200 \<le> st \<and> st \<le> 299 \<longrightarrow>
            r_status (forecastRoute req (FetchResponse st txt (JsonFails msg'))) = 500)"
  using assms
  by (auto simp: forecastRoute_def Let_def shopifyFetch_not_ok)
     (auto simp: fetchCustomerOrders_def shopifyFetch_def)

text \<open>Scenario 5 of the specification: the order source answers 401.\<close>

theorem C7_upstream_status_preserved_witness:
  "(strTruthy (str_or (body_customer_id requestById) (query_customer_id requestById))
      \<or> strTruthy (str_or (body_email requestById) (query_email requestById)))
   \<and> forecastRoute requestById (FetchResponse 401 ''Unauthorized'' (JsonObject None))
       = \<lparr>r_status = 401, r_body = ErrorBody ''Shopify API error: 401 Unauthorized''\<rparr>
   \<and> r_status (forecastRoute requestById (FetchRejected ''fetch failed'')) = 500"
proof -
  have h: "strTruthy (str_or (body_customer_id requestById) (query_customer_id requestById))
      \<or> strTruthy (str_or (body_email requestById) (query_email requestById))"
    by (simp add: requestById_def str_or_def strTruthy_def)
  have s: "showInt 401 = ''401''" by code_simp
  show ?thesis
    using h C7_upstream_status_preserved [OF h, of 401 "''Unauthorized''" "JsonObject None"
        "''fetch failed''"] s
    by simp
qed

text \<open>
  C8. A line item with neither identifier is to be skipped. \<^verbatim>\<open>server.js\<close> does so
  (\<open>addLineItem_unidentified\<close>). The two-window aggregator of \<^verbatim>\<open>part_001\<close> takes the
  string of the missing identifier as the key: the custom line item below gets the entry
  \<^verbatim>\<open>"null"\<close> with its quantity, and the cart path asks for one unit of \<^verbatim>\<open>null\<close>.
\<close>

theorem C8_unidentified_item_aggregated:
  "aggregateLineItemsWithSeasonality 0 ordersNoIdentifier []
     = [(''null'', \<lparr>s_title = ''Gift'', s_totalQty = 2\<rparr>)]
   \<and> buildCartUrl (buildForecast (aggregateLineItemsWithSeasonality 0 ordersNoIdentifier []) 6 20)
     = ''/cart/null:1''
   \<and> aggregateLineItems ordersNoIdentifier = []"
  by code_simp

text \<open>
  C9 (as amended). The title of an entry is the title of the first line item that maps to
  its key (\<^verbatim>\<open>li.name || li.title || ""\<close> of that line item, empty or not), in
  \<^verbatim>\<open>server.js\<close> and in \<^verbatim>\<open>part_001\<close>; line items that come later, in the same or in
  later orders, never change it.
\<close>

theorem C9_title_of_first_line_item:
  "map_option a_title (obj_get (aggregateLineItems orders) k)
     = (case lineItemsWithKey k (allLineItems orders) of
          [] \<Rightarrow> None | li # r \<Rightarrow> Some (titleOf li))
   \<and> map_option s_title (obj_get (aggregateLineItemsWithSeasonality cur rs ss) k)
     = (case filter (\<lambda>li. keyOf li = k) (contributingLineItems cur rs ss) of
          [] \<Rightarrow> None | li # r \<Rightarrow> Some (titleOf li))
   \<and> map_option a_title (obj_get (aggregateLineItems (orders @ later)) k)
     = (case map_option a_title (obj_get (aggregateLineItems orders) k) of
          Some t \<Rightarrow> Some t
        | None \<Rightarrow> map_option a_title (obj_get (aggregateLineItems later) k))
   \<and> map_option s_title (obj_get (aggregateLineItemsWithSeasonality cur rs (ss @ later)) k)
     = (case map_option s_title (obj_get (aggregateLineItemsWithSeasonality cur rs ss) k) of
          Some t \<Rightarrow> Some t
        | None \<Rightarrow> map_option s_title (obj_get (aggregateLineItemsWithSeasonality cur [] later) k))"
  by (simp add: obj_get_aggregateLineItems aggregateLineItemsWithSeasonality_fold
        obj_get_fold_addLineItemS obj_get_Nil allLineItems_def lineItemsWithKey_def
        contributingLineItems_def split: list.splits)

text \<open>
  C9 as stated fails: the first line item of key 5 has no title, the second is titled
  Shirt; the first non-empty title is Shirt, the entry's title stays empty.
\<close>

theorem C9_first_nonempty_title_counterexample:
  "firstNonEmptyTitle (lineItemsWithKey ''5'' (allLineItems ordersLateTitle)) = Some ''Shirt''
   \<and> obj_get (aggregateLineItems ordersLateTitle) ''5'' = Some \<lparr>a_qty = 2, a_title = ''''\<rparr>
   \<and> obj_get (aggregateLineItemsWithSeasonality 0 ordersLateTitle []) ''5''
     = Some \<lparr>s_title = '''', s_totalQty = 2\<rparr>"
  by code_simp

text \<open>
  C10. In \<^verbatim>\<open>part_001\<close>, for a window of \<open>recentMonths > 0\<close>: every entry of the map
  gives exactly one item, in the order of the map, before the sort and the truncation;
  the forecast has \<open>min topN (length itemsMap)\<close> items, and all the items when the map
  has at most \<open>topN\<close> entries; every item of the forecast has a quantity of at least 1;
  an entry whose rounded quotient is not strictly positive gets the quantity 1, and so
  does an entry whose total is 0.
\<close>

theorem C10_two_window_minimum:
  assumes "0 < recentMonths"
  shows "map variant_id (map (forecastPush recentMonths) itemsMap) = map fst itemsMap
       \<and> length (buildForecast itemsMap recentMonths topN) = min topN (length itemsMap)
       \<and> (length itemsMap \<le> topN \<longrightarrow>
            mset (buildForecast itemsMap recentMonths topN)
              = mset (map (forecastPush recentMonths) itemsMap))
       \<and> (\<forall>i \<in> set (buildForecast itemsMap recentMonths topN). 1 \<le> qty i)
       \<and> (\<forall>kv \<in> set itemsMap.
            js_round_div (s_totalQty (snd kv)) recentMonths \<le> 0 \<longrightarrow>
              qty (forecastPush recentMonths kv) = 1)
       \<and> qty (forecastPush recentMonths (k, \<lparr>s_title = t, s_totalQty = 0\<rparr>)) = 1"
proof -
  have 1: "map variant_id (map (forecastPush recentMonths) itemsMap) = map fst itemsMap"
    by (simp add: variant_id_forecastPush comp_def)
  have 2: "length (buildForecast itemsMap recentMonths topN) = min topN (length itemsMap)"
    by (simp add: buildForecast_def)
  have 3: "length itemsMap \<le> topN \<longrightarrow>
            mset (buildForecast itemsMap recentMonths topN)
              = mset (map (forecastPush recentMonths) itemsMap)"
    by (simp add: buildForecast_def)
  have 4: "\<forall>i \<in> set (buildForecast itemsMap recentMonths topN). 1 \<le> qty i"
    using set_buildForecast [of itemsMap recentMonths topN]
    by (auto simp: qty_forecastPush)
  have 5: "\<forall>kv \<in> set itemsMap.
            js_round_div (s_totalQty (snd kv)) recentMonths \<le> 0 \<longrightarrow>
              qty (forecastPush recentMonths kv) = 1"
    by (simp add: qty_forecastPush)
  have 6: "qty (forecastPush recentMonths (k, \<lparr>s_title = t, s_totalQty = 0\<rparr>)) = 1"
    using assms js_round_div_nonpos [of recentMonths 0] by (simp add: qty_forecastPush)
  show ?thesis using 1 2 3 4 5 6 by blast
qed

text \<open>The two entries of \<open>ordersOneTwo\<close>, and an entry of total 0.\<close>

theorem C10_two_window_minimum_witness:
  "(0::int) < 6
   \<and> map variant_id (map (forecastPush 6) (aggregateLineItemsWithSeasonality 0 ordersOneTwo []))
       = map fst (aggregateLineItemsWithSeasonality 0 ordersOneTwo [])
   \<and> length (buildForecast (aggregateLineItemsWithSeasonality 0 ordersOneTwo []) 6 20)
       = min 20 (length (aggregateLineItemsWithSeasonality 0 ordersOneTwo []))
   \<and> list_all (\<lambda>i. 1 \<le> qty i)
         (buildForecast (aggregateLineItemsWithSeasonality 0 ordersOneTwo []) 6 20)
   \<and> qty (forecastPush 6 (''9'', \<lparr>s_title = ''Tea'', s_totalQty = 0\<rparr>)) = 1"
  using C10_two_window_minimum [of 6 "aggregateLineItemsWithSeasonality 0 ordersOneTwo []" 20
      "''9''" "''Tea''"]
  by (simp add: list_all_iff)

end
